theory Spec2Isabelle
  imports Main
begin

section \<open>Strings, errors and observable events\<close>

text \<open>
  A JavaScript string is a sequence of UTF-16 code units. A code unit is modelled as a
  natural number (below 65536 in every real string); \<open>js\<close> reads an ASCII or Latin-1
  literal as such a sequence.
\<close>

type_synonym jsstring = "nat list"

definition js :: "string \<Rightarrow> jsstring" where
  "js s = map of_char s"

text \<open>
  The value caught by a \<open>catch\<close> clause is untyped. The wrapper reads three of its
  properties through optional chaining: \<open>status\<close> and \<open>code\<close> (compared with the number
  429 by strict equality) and \<open>message\<close>. \<open>status\<close> and \<open>code\<close> are \<open>Some n\<close> when the
  property is the number \<open>n\<close>, and \<open>message\<close> is \<open>Some m\<close> when it is the string \<open>m\<close>, as
  it is in the error objects that the wrapped requests throw; a property that is absent is
  \<open>None\<close>.
\<close>

record js_error =
  status :: "int option"
  code :: "int option"
  message :: "jsstring option"

text \<open>\<open>new Error(msg)\<close>: an error object with the given message and neither status nor code.\<close>

definition new_Error :: "jsstring \<Rightarrow> js_error" where
  "new_Error msg = \<lparr>status = None, code = None, message = Some msg\<rparr>"

text \<open>
  Progress messages are template literals; each constructor stands for one template of the
  source and carries the values interpolated into it:
  \<^item> \<open>Analisando\<close>: the fixed message before the outline request (sequential variant);
  \<^item> \<open>AltaDemanda operationName waitTime\<close>: the "high demand, waiting" message of the
    retry wrapper, which prints the operation name and \<open>waitTime/1000\<close>;
  \<^item> \<open>Escrevendo k total title\<close>: "writing chapter k/total: title";
  \<^item> \<open>Finalizando\<close>: the fixed message after the chapter loop;
  \<^item> \<open>Criando\<close>, \<open>EscrevendoLote startIdx endIdx total\<close>, \<open>FinalizandoFormatacao\<close>: the
    three messages of the batched variant.
\<close>

datatype progress =
    Analisando
  | AltaDemanda jsstring nat
  | Escrevendo nat nat jsstring
  | Finalizando
  | Criando
  | EscrevendoLote nat nat nat
  | FinalizandoFormatacao

text \<open>
  What a run does besides returning: calls of \<open>onProgress\<close>, timer waits (the argument of
  \<open>setTimeout\<close>, in milliseconds) and invocations of a wrapped backend operation (tagged with
  the operation's name). Console output is not modelled.
\<close>

datatype event =
    Progress progress
  | Sleep nat
  | Invoke jsstring

definition sleeps :: "event list \<Rightarrow> nat list" where
  "sleeps evs = concat (map (\<lambda>e. case e of Sleep d \<Rightarrow> [d] | _ \<Rightarrow> []) evs)"

definition invocations :: "event list \<Rightarrow> nat" where
  "invocations evs = length (filter (\<lambda>e. case e of Invoke _ \<Rightarrow> True | _ \<Rightarrow> False) evs)"

section \<open>The retry wrapper\<close>

text \<open>
  The pattern \<open>/quota|limit|429/i\<close> has no \<open>u\<close> flag, so case-insensitive matching compares
  code units after the canonicalisation of the language standard: a code unit is
  upper-cased, except that a non-ASCII code unit is never mapped to an ASCII one. The three
  alternatives are ASCII, hence an input code unit matches a pattern code unit exactly when
  both are ASCII and equal up to ASCII case. \<open>canonicalize\<close> is that comparison key:
  non-ASCII code units are left as they are, which no pattern character equals.
\<close>

definition canonicalize :: "nat \<Rightarrow> nat" where
  "canonicalize c = (if 97 \<le> c \<and> c \<le> 122 then c - 32 else c)"

fun starts_with_ci :: "jsstring \<Rightarrow> jsstring \<Rightarrow> bool" where
  "starts_with_ci [] s = True"
| "starts_with_ci (p # ps) [] = False"
| "starts_with_ci (p # ps) (c # cs) =
     (canonicalize p = canonicalize c \<and> starts_with_ci ps cs)"

text \<open>\<open>RegExp.prototype.test\<close> for an alternation of literals: a match may start anywhere.\<close>

fun regex_test_ci :: "jsstring list \<Rightarrow> jsstring \<Rightarrow> bool" where
  "regex_test_ci alts [] = list_ex (\<lambda>p. starts_with_ci p []) alts"
| "regex_test_ci alts (c # cs) =
     (list_ex (\<lambda>p. starts_with_ci p (c # cs)) alts \<or> regex_test_ci alts cs)"

definition rate_limit_pattern :: "jsstring \<Rightarrow> bool" where
  "rate_limit_pattern s = regex_test_ci [js ''quota'', js ''limit'', js ''429''] s"

text \<open>
  \<open>error?.status === 429 || error?.code === 429 ||
  (error?.message && /quota|limit|429/i.test(error.message))\<close>; the empty string is falsy.
\<close>

definition isRateLimit :: "js_error \<Rightarrow> bool" where
  "isRateLimit error =
     (status error = Some 429 \<or> code error = Some 429 \<or>
      (case message error of
         None \<Rightarrow> False
       | Some m \<Rightarrow> m \<noteq> [] \<and> rate_limit_pattern m))"

text \<open>
  The message of the error thrown after the loop: the operation name between a fixed
  prefix ("Falha na operacao ", with c-cedilla and a-tilde) and a fixed suffix
  (" apos tentativas.", with o-acute).
\<close>

definition terminal_message :: "jsstring \<Rightarrow> jsstring" where
  "terminal_message operationName =
     js ''Falha na opera'' @ [0xE7, 0xE3] @ js ''o '' @ operationName @
     js '' ap'' @ [0xF3] @ js ''s tentativas.''"

definition terminal_failure :: "jsstring \<Rightarrow> js_error" where
  "terminal_failure operationName = new_Error (terminal_message operationName)"

definition emit :: "event list \<Rightarrow> 'r \<times> event list \<Rightarrow> 'r \<times> event list" where
  "emit evs res = (fst res, evs @ snd res)"

text \<open>
  The wrapped operation \<open>fn\<close> is a thunk that performs a request each time it is called.
  It is modelled by the outcome of each call in turn: \<open>fn i\<close> is what the call made in
  iteration \<open>i\<close> of the loop produces, \<open>Inr v\<close> for a fulfilled promise and \<open>Inl e\<close> for a
  rejected one. The loop variable \<open>i\<close>, \<open>retries\<close> and \<open>baseDelay\<close> are natural numbers
  (the call sites pass 3 or 1 attempts and the default delay), on which
  \<open>baseDelay * Math.pow(2, i)\<close> is exact.

  The function returns the result of the wrapper (\<open>Inl\<close> for a thrown error) and the events
  of the iterations from \<open>i\<close> on.
\<close>

function callWithRetry_loop ::
  "jsstring \<Rightarrow> (nat \<Rightarrow> js_error + 'a) \<Rightarrow> nat \<Rightarrow> nat \<Rightarrow> nat \<Rightarrow> (js_error + 'a) \<times> event list"
where
  "callWithRetry_loop operationName fn retries baseDelay i =
     (if i < retries then
        (case fn i of
           Inr v \<Rightarrow> (Inr v, [Invoke operationName])
         | Inl error \<Rightarrow>
             if isRateLimit error \<and> i < retries - 1 then
               emit [Invoke operationName,
                     Progress (AltaDemanda operationName (baseDelay * 2 ^ i)),
                     Sleep (baseDelay * 2 ^ i)]
                 (callWithRetry_loop operationName fn retries baseDelay (i + 1))
             else (Inl error, [Invoke operationName]))
      else (Inl (terminal_failure operationName), []))"
  by pat_completeness auto
termination
  by (relation "measure (\<lambda>(operationName, fn, retries, baseDelay, i). retries - i)") auto

declare callWithRetry_loop.simps [simp del]

definition callWithRetry ::
  "jsstring \<Rightarrow> (nat \<Rightarrow> js_error + 'a) \<Rightarrow> nat \<Rightarrow> nat \<Rightarrow> (js_error + 'a) \<times> event list"
where
  "callWithRetry operationName fn retries baseDelay =
     callWithRetry_loop operationName fn retries baseDelay 0"

text \<open>The default arguments \<open>retries = 3\<close> and \<open>baseDelay = 4000\<close>.\<close>

definition default_retries :: nat where
  "default_retries = 3"

definition default_baseDelay :: nat where
  "default_baseDelay = 4000"

text \<open>
  The events of \<open>k - i\<close> consecutive rate-limited attempts, numbered from \<open>i\<close>: the
  invocation, the progress message and the wait of each.
\<close>

definition backoff_events :: "jsstring \<Rightarrow> nat \<Rightarrow> nat \<Rightarrow> nat \<Rightarrow> event list" where
  "backoff_events operationName baseDelay i k =
     concat (map (\<lambda>j. [Invoke operationName,
                        Progress (AltaDemanda operationName (baseDelay * 2 ^ j)),
                        Sleep (baseDelay * 2 ^ j)]) [i..<k])"

text \<open>
  Whether an error's message contains the operation name as a substring
  (\<open>String.prototype.includes\<close>, compared code unit by code unit).
\<close>

fun starts_with :: "jsstring \<Rightarrow> jsstring \<Rightarrow> bool" where
  "starts_with [] s = True"
| "starts_with (p # ps) [] = False"
| "starts_with (p # ps) (c # cs) = (p = c \<and> starts_with ps cs)"

fun occurs_in :: "jsstring \<Rightarrow> jsstring \<Rightarrow> bool" where
  "occurs_in p [] = starts_with p []"
| "occurs_in p (c # cs) = (starts_with p (c # cs) \<or> occurs_in p cs)"

definition names_operation :: "jsstring \<Rightarrow> js_error \<Rightarrow> bool" where
  "names_operation operationName error =
     (case message error of None \<Rightarrow> False | Some m \<Rightarrow> occurs_in operationName m)"

section \<open>Data of a generation run\<close>

text \<open>
  \<open>OutlineData\<close> and \<open>ContentData\<close> share five string fields. The chapter titles of a
  parsed outline are \<open>None\<close> when the parsed value has no array there, in which case
  reading its \<open>length\<close> throws. A chapter's fields are prefixed with \<open>ch_\<close>, since
  \<open>title\<close> already names the book's; \<open>ch_image\<close> is \<open>None\<close> for an absent or
  \<open>undefined\<close> illustration.
\<close>

record book_meta =
  title :: jsstring
  subtitle :: jsstring
  author :: jsstring
  summary :: jsstring
  colorTheme :: jsstring

record outline_data = book_meta +
  chapterTitles :: "jsstring list option"

text \<open>
  The body of a chapter is what \<open>JSON.parse(...).content\<close> evaluates to, or a string
  literal of the source. The parsed value is a string when the backend honours the response
  schema; anything else (a missing property, a number, ...) is \<open>NotString\<close>.
\<close>

datatype jsvalue = Str jsstring | NotString

record chapter_data =
  ch_title :: jsstring
  ch_content :: jsvalue
  ch_image :: "jsstring option"

record content_data = book_meta +
  chapters :: "chapter_data list"

text \<open>
  A response of the backend, as far as the pipeline reads it: the \<open>text\<close> getter
  (\<open>undefined\<close> is \<open>None\<close>) and \<open>candidates?.[0]?.content?.parts\<close> (\<open>None\<close> when any link
  of that chain is missing), each part reduced to its \<open>inlineData\<close>.
\<close>

record inline_data =
  mimeType :: "jsstring option"
  data :: "jsstring option"

record response =
  resp_text :: "jsstring option"
  first_parts :: "inline_data option list option"

text \<open>
  The world outside the pipeline. A request is answered by the backend; \<open>text_request env i j\<close>
  is the outcome of the \<open>j\<close>-th attempt of the text request of chapter \<open>i\<close> (counted from 0),
  and likewise for the image and the outline requests. The prompts, which interpolate the
  answers of the wizard, the book title and the chapter title, are read by the backend only,
  so the answers do not appear in the model. \<open>JSON.parse\<close> is a library function:
  \<open>parse_outline s\<close> is \<open>JSON.parse(s) as OutlineData\<close> and \<open>parse_content s\<close> is
  \<open>JSON.parse(s).content\<close>, \<open>Inl\<close> when the evaluation throws.
\<close>

record env =
  outline_request :: "nat \<Rightarrow> js_error + response"
  text_request :: "nat \<Rightarrow> nat \<Rightarrow> js_error + response"
  image_request :: "nat \<Rightarrow> nat \<Rightarrow> js_error + response"
  parse_outline :: "jsstring \<Rightarrow> js_error + outline_data"
  parse_content :: "jsstring \<Rightarrow> js_error + jsvalue"

text \<open>A string is truthy when it is present and not empty.\<close>

definition truthy :: "jsstring option \<Rightarrow> bool" where
  "truthy t = (case t of None \<Rightarrow> False | Some s \<Rightarrow> s \<noteq> [])"

text \<open>The decimal digits of a number, as a template literal prints a non-negative integer.\<close>

fun show_nat :: "nat \<Rightarrow> jsstring" where
  "show_nat n = (if n < 10 then [48 + n] else show_nat (n div 10) @ [48 + n mod 10])"

declare show_nat.simps [simp del]

text \<open>
  The error a property read on \<open>undefined\<close> throws. Its message depends on the engine;
  the name of the error class stands for it.
\<close>

definition type_error :: js_error where
  "type_error = new_Error (js ''TypeError'')"

section \<open>The sequential pipeline with throttling\<close>

text \<open>
  The string literals of the first variant: the message of the error that replaces every
  failure of the outline step ("Nao foi possivel conectar a IA. Verifique sua chave de API
  ou tente novamente."), the body used when the text payload is empty or absent
  ("Conteudo indisponivel.") and the body used when the chapter fails ("Erro na geracao
  deste capitulo. O conteudo foi omitido."). Accented letters are given by their code units.
\<close>

definition connect_message :: jsstring where
  "connect_message =
     js ''N'' @ [0xE3] @ js ''o foi poss'' @ [0xED] @ js ''vel conectar '' @ [0xE0] @
     js '' IA. Verifique sua chave de API ou tente novamente.''"

definition unavailable_body :: jsstring where
  "unavailable_body = js ''Conte'' @ [0xFA] @ js ''do indispon'' @ [0xED] @ js ''vel.''"

definition error_body :: jsstring where
  "error_body =
     js ''Erro na gera'' @ [0xE7, 0xE3] @ js ''o deste cap'' @ [0xED] @
     js ''tulo. O conte'' @ [0xFA] @ js ''do foi omitido.''"

text \<open>
  Step 1. Everything inside the \<open>try\<close> block that throws (the wrapped request, the check of
  the text payload, \<open>JSON.parse\<close>) is caught and replaced by one fixed error.
\<close>

definition outline_step :: "env \<Rightarrow> (js_error + outline_data) \<times> event list" where
  "outline_step env =
     (case callWithRetry (js ''Gerar Estrutura'') (outline_request env)
             default_retries default_baseDelay of
        (Inl e, evs) \<Rightarrow> (Inl (new_Error connect_message), evs)
      | (Inr outlineResponse, evs) \<Rightarrow>
          if \<not> truthy (resp_text outlineResponse) then (Inl (new_Error connect_message), evs)
          else (case parse_outline env (the (resp_text outlineResponse)) of
                  Inl e \<Rightarrow> (Inl (new_Error connect_message), evs)
                | Inr outline \<Rightarrow> (Inr outline, evs)))"

text \<open>
  \<open>`data:${mimeType};base64,${data}`\<close>; a template literal prints an absent property as
  \<open>undefined\<close>.
\<close>

definition show_opt :: "jsstring option \<Rightarrow> jsstring" where
  "show_opt t = (case t of None \<Rightarrow> js ''undefined'' | Some s \<Rightarrow> s)"

definition data_url :: "inline_data \<Rightarrow> jsstring" where
  "data_url d = js ''data:'' @ show_opt (mimeType d) @ js '';base64,'' @ show_opt (data d)"

text \<open>The loop over the parts stops at the first one that has inline data.\<close>

fun first_inline :: "inline_data option list \<Rightarrow> jsstring option" where
  "first_inline [] = None"
| "first_inline (None # ps) = first_inline ps"
| "first_inline (Some d # ps) = Some (data_url d)"

text \<open>
  The inner \<open>try\<close> block of chapter \<open>i\<close>: a wait of one second, one attempt of the image
  request (\<open>retries = 1\<close>), the search for inline data. Its \<open>catch\<close> clause only logs, so the
  block always completes, with \<open>imageBase64\<close> set or still \<open>undefined\<close>.
\<close>

definition image_step :: "env \<Rightarrow> nat \<Rightarrow> jsstring option \<times> event list" where
  "image_step env i =
     emit [Sleep 1000]
       (case callWithRetry (js ''Imagem Cap '' @ show_nat (i + 1)) (image_request env i)
               1 default_baseDelay of
          (Inl imgErr, evs) \<Rightarrow> (None, evs)
        | (Inr imageResult, evs) \<Rightarrow>
            (case first_parts imageResult of
               None \<Rightarrow> (None, evs)
             | Some parts \<Rightarrow> (first_inline parts, evs)))"

text \<open>
  \<open>textResult.text ? JSON.parse(textResult.text).content : "Conteudo indisponivel."\<close>;
  \<open>Inl\<close> when the parse throws.
\<close>

definition chapter_text :: "env \<Rightarrow> response \<Rightarrow> js_error + jsvalue" where
  "chapter_text env textResult =
     (if truthy (resp_text textResult) then parse_content env (the (resp_text textResult))
      else Inr (Str unavailable_body))"

definition failed_chapter :: "jsstring \<Rightarrow> chapter_data" where
  "failed_chapter chapterTitle =
     \<lparr>ch_title = chapterTitle, ch_content = Str error_body, ch_image = None\<rparr>"

text \<open>
  The body of the chapter loop after its progress message, for chapter \<open>i\<close>: the outer
  \<open>try\<close> block and its \<open>catch\<close> clause. The result is the one chapter the iteration pushes.
  An error thrown by the text request (after its retries) or by the parse reaches the
  \<open>catch\<close> clause before the \<open>push\<close> of the \<open>try\<close> block; nothing after that \<open>push\<close> throws.
\<close>

definition chapter_step ::
  "env \<Rightarrow> nat \<Rightarrow> nat \<Rightarrow> jsstring \<Rightarrow> chapter_data \<times> event list"
where
  "chapter_step env totalChapters i chapterTitle =
     (case callWithRetry (js ''Texto Cap '' @ show_nat (i + 1)) (text_request env i)
             default_retries default_baseDelay of
        (Inl e, evs) \<Rightarrow> (failed_chapter chapterTitle, evs)
      | (Inr textResult, evs) \<Rightarrow>
          (case image_step env i of
             (imageBase64, img_evs) \<Rightarrow>
               (case chapter_text env textResult of
                  Inl e \<Rightarrow> (failed_chapter chapterTitle, evs @ img_evs)
                | Inr body \<Rightarrow>
                    (\<lparr>ch_title = chapterTitle, ch_content = body, ch_image = imageBase64\<rparr>,
                     evs @ img_evs @
                     (if i < totalChapters - 1 then [Sleep 2000] else [])))))"

text \<open>
  Step 2: \<open>for (let i = 0; i < totalChapters; i++)\<close>, with the array \<open>chapters\<close> passed
  along. The result is the final array and the events from iteration \<open>i\<close> on.
\<close>

function chapters_loop ::
  "env \<Rightarrow> jsstring list \<Rightarrow> nat \<Rightarrow> chapter_data list \<Rightarrow> chapter_data list \<times> event list"
where
  "chapters_loop env titles i chs =
     (if i < length titles then
        (case chapter_step env (length titles) i (titles ! i) of
           (c, evs) \<Rightarrow>
             emit (Progress (Escrevendo (i + 1) (length titles) (titles ! i)) # evs)
               (chapters_loop env titles (i + 1) (chs @ [c])))
      else (chs, []))"
  by pat_completeness auto
termination
  by (relation "measure (\<lambda>(env, titles, i, chs). length titles - i)") auto

declare chapters_loop.simps [simp del]

text \<open>
  The whole function. An error of step 1 ends the run; so does an outline without a
  chapter-title array, on the read of its length. The returned object spreads the outline
  and adds the chapters.
\<close>

definition generateMaterial :: "env \<Rightarrow> (js_error + content_data) \<times> event list" where
  "generateMaterial env =
     emit [Progress Analisando]
       (case outline_step env of
          (Inl e, evs) \<Rightarrow> (Inl e, evs)
        | (Inr outline, evs) \<Rightarrow>
            (case chapterTitles outline of
               None \<Rightarrow> (Inl type_error, evs)
             | Some titles \<Rightarrow>
                 (case chapters_loop env titles 0 [] of
                    (chs, ch_evs) \<Rightarrow>
                      (Inr \<lparr>title = title outline, subtitle = subtitle outline,
                            author = author outline, summary = summary outline,
                            colorTheme = colorTheme outline, chapters = chs\<rparr>,
                       evs @ ch_evs @ [Progress Finalizando]))))"

section \<open>The batched pipeline\<close>

text \<open>
  The string literals of the second variant: the message thrown for an empty outline
  response ("Falha ao gerar estrutura."), the body for an empty or absent text payload
  ("Conteudo nao gerado.") and the body of a failed chapter ("Ocorreu um erro ao gerar este
  capitulo. Tente regenerar o material.").
\<close>

definition outline_failure_message :: jsstring where
  "outline_failure_message = js ''Falha ao gerar estrutura.''"

definition not_generated_body :: jsstring where
  "not_generated_body = js ''Conte'' @ [0xFA] @ js ''do n'' @ [0xE3] @ js ''o gerado.''"

definition batch_error_body :: jsstring where
  "batch_error_body =
     js ''Ocorreu um erro ao gerar este cap'' @ [0xED] @
     js ''tulo. Tente regenerar o material.''"

definition batchSize :: nat where
  "batchSize = 3"

text \<open>
  Step 1 of the second variant: one request, not wrapped (attempt 0 of the outline request)
  and not guarded, so its error, the error for an empty payload and the error of the parse
  all end the run as they are.
\<close>

definition outline_step_batched :: "env \<Rightarrow> js_error + outline_data" where
  "outline_step_batched env =
     (case outline_request env 0 of
        Inl e \<Rightarrow> Inl e
      | Inr outlineResponse \<Rightarrow>
          if \<not> truthy (resp_text outlineResponse) then Inl (new_Error outline_failure_message)
          else parse_outline env (the (resp_text outlineResponse)))"

text \<open>
  The asynchronous function mapped over a batch, for the chapter at position \<open>j\<close> of the
  title list: one request, not wrapped (attempt 0), inside a \<open>try\<close> block whose \<open>catch\<close>
  clause returns the failed chapter. The promise it returns is therefore always fulfilled,
  with this value. Chapters of this variant have no illustration.
\<close>

definition chapter_task :: "env \<Rightarrow> nat \<Rightarrow> jsstring \<Rightarrow> chapter_data" where
  "chapter_task env j chapterTitle =
     (case text_request env j 0 of
        Inl e \<Rightarrow>
          \<lparr>ch_title = chapterTitle, ch_content = Str batch_error_body, ch_image = None\<rparr>
      | Inr result \<Rightarrow>
          if truthy (resp_text result) then
            (case parse_content env (the (resp_text result)) of
               Inl e \<Rightarrow>
                 \<lparr>ch_title = chapterTitle, ch_content = Str batch_error_body,
                  ch_image = None\<rparr>
             | Inr body \<Rightarrow>
                 \<lparr>ch_title = chapterTitle, ch_content = body, ch_image = None\<rparr>)
          else
            \<lparr>ch_title = chapterTitle, ch_content = Str not_generated_body,
             ch_image = None\<rparr>)"

text \<open>
  \<open>Promise.all\<close> over promises that are all fulfilled. The language standard gives it an
  array of one slot per promise; when the promise at index \<open>k\<close> settles, its value is stored
  in slot \<open>k\<close>, and when no promise remains unsettled the array is the result. \<open>order\<close> is
  the sequence of indices in which the promises settle, which the scheduler and the network
  decide. The result is \<open>None\<close> when some promise never settles: the \<open>await\<close> then never
  returns.
\<close>

definition settle_one :: "'a list \<Rightarrow> 'a option list \<Rightarrow> nat \<Rightarrow> 'a option list" where
  "settle_one vals slots k = (if k < length slots then slots[k := Some (vals ! k)] else slots)"

definition promise_all :: "'a list \<Rightarrow> nat list \<Rightarrow> 'a list option" where
  "promise_all vals order =
     (let slots = foldl (settle_one vals) (replicate (length vals) None) order
      in if list_all (\<lambda>slot. slot \<noteq> None) slots then Some (map the slots) else None)"

text \<open>
  Step 2: \<open>for (let i = 0; i < totalChapters; i += batchSize)\<close>. The batch is
  \<open>chapterTitles.slice(i, i + batchSize)\<close>; the chapter at position \<open>k\<close> of the batch is the
  chapter at position \<open>i + k\<close> of the title list. \<open>settle i\<close> is the order in which the
  promises of the batch that starts at \<open>i\<close> settle. The result is \<open>None\<close> when the run never
  returns.
\<close>

function batches_loop ::
  "env \<Rightarrow> (nat \<Rightarrow> nat list) \<Rightarrow> jsstring list \<Rightarrow> nat \<Rightarrow> chapter_data list \<Rightarrow>
   (chapter_data list \<times> event list) option"
where
  "batches_loop env settle titles i chs =
     (if i < length titles then
        (let batch = take batchSize (drop i titles);
             startIdx = i + 1;
             endIdx = min (i + batchSize) (length titles);
             batchPromises = map (\<lambda>(j, chapterTitle). chapter_task env j chapterTitle)
                               (enumerate i batch)
         in case promise_all batchPromises (settle i) of
              None \<Rightarrow> None
            | Some batchResults \<Rightarrow>
                map_option (emit [Progress (EscrevendoLote startIdx endIdx (length titles))])
                  (batches_loop env settle titles (i + batchSize) (chs @ batchResults)))
      else Some (chs, []))"
  by pat_completeness auto
termination
  by (relation "measure (\<lambda>(env, settle, titles, i, chs). length titles - i)")
    (auto simp: batchSize_def)

declare batches_loop.simps [simp del]

definition generateMaterial_batched ::
  "env \<Rightarrow> (nat \<Rightarrow> nat list) \<Rightarrow> ((js_error + content_data) \<times> event list) option"
where
  "generateMaterial_batched env settle =
     map_option (emit [Progress Criando])
       (case outline_step_batched env of
          Inl e \<Rightarrow> Some (Inl e, [])
        | Inr outline \<Rightarrow>
            (case chapterTitles outline of
               None \<Rightarrow> Some (Inl type_error, [])
             | Some titles \<Rightarrow>
                 (case batches_loop env settle titles 0 [] of
                    None \<Rightarrow> None
                  | Some (chs, evs) \<Rightarrow>
                      Some (Inr \<lparr>title = title outline, subtitle = subtitle outline,
                                  author = author outline, summary = summary outline,
                                  colorTheme = colorTheme outline, chapters = chs\<rparr>,
                            evs @ [Progress FinalizandoFormatacao]))))"

section \<open>The renderer: accent colour and file name\<close>

text \<open>
  A JavaScript number that is an integer or \<open>NaN\<close>, which is all \<open>parseInt\<close> returns
  (negative zero is \<open>Num 0\<close>).
\<close>

datatype jsnumber = Num int | NaN

record rgb =
  r :: jsnumber
  g :: jsnumber
  b :: jsnumber

text \<open>
  \<open>parseInt(s, 16)\<close> as the language standard defines it: leading white space is skipped,
  one sign is read, one prefix \<open>0x\<close> or \<open>0X\<close> is dropped, and the longest run of
  hexadecimal digits that follows is the value; with no digit there the result is \<open>NaN\<close>.
  (Beyond twenty significant digits the standard lets the value be approximated; the
  renderer parses at most two code units.)
\<close>

definition is_white_space :: "nat \<Rightarrow> bool" where
  "is_white_space c =
     (c \<in> {0x09, 0x0A, 0x0B, 0x0C, 0x0D, 0x20, 0xA0, 0x1680, 0x2028, 0x2029, 0x202F,
            0x205F, 0x3000, 0xFEFF} \<or> (0x2000 \<le> c \<and> c \<le> 0x200A))"

definition hex_digit :: "nat \<Rightarrow> nat option" where
  "hex_digit c =
     (if 48 \<le> c \<and> c \<le> 57 then Some (c - 48)
      else if 97 \<le> c \<and> c \<le> 102 then Some (c - 87)
      else if 65 \<le> c \<and> c \<le> 70 then Some (c - 55)
      else None)"

definition strip_sign :: "jsstring \<Rightarrow> int \<times> jsstring" where
  "strip_sign s =
     (case s of
        [] \<Rightarrow> (1, [])
      | c # cs \<Rightarrow> if c = 45 then (- 1, cs) else if c = 43 then (1, cs) else (1, c # cs))"

definition strip_0x :: "jsstring \<Rightarrow> jsstring" where
  "strip_0x s =
     (case s of
        c # d # cs \<Rightarrow> if c = 48 \<and> (d = 120 \<or> d = 88) then cs else s
      | _ \<Rightarrow> s)"

definition hex_value :: "jsstring \<Rightarrow> nat" where
  "hex_value ds = foldl (\<lambda>acc c. 16 * acc + the (hex_digit c)) 0 ds"

definition parseInt16 :: "jsstring \<Rightarrow> jsnumber" where
  "parseInt16 s =
     (case strip_sign (dropWhile is_white_space s) of
        (sign, rest) \<Rightarrow>
          (let z = takeWhile (\<lambda>c. hex_digit c \<noteq> None) (strip_0x rest)
           in if z = [] then NaN else Num (sign * int (hex_value z))))"

text \<open>\<open>s.slice(i, j)\<close> for \<open>0 \<le> i \<le> j\<close>.\<close>

definition slice :: "jsstring \<Rightarrow> nat \<Rightarrow> nat \<Rightarrow> jsstring" where
  "slice s i j = take (j - i) (drop i s)"

text \<open>
  \<open>hexToRgb\<close>, the same in both variants. The argument is \<open>None\<close> for a colour theme that
  is \<open>undefined\<close> or \<open>null\<close>; \<open>!hex\<close> also holds for the empty string. Code unit 35
  is the number sign.
\<close>

definition fallback_rgb :: rgb where
  "fallback_rgb = \<lparr>r = Num 30, g = Num 41, b = Num 59\<rparr>"

definition hexToRgb :: "jsstring option \<Rightarrow> rgb" where
  "hexToRgb hex =
     (if \<not> truthy hex \<or> \<not> starts_with [35] (the hex) then \<lparr>r = Num 30, g = Num 41, b = Num 59\<rparr>
      else \<lparr>r = parseInt16 (slice (the hex) 1 3),
            g = parseInt16 (slice (the hex) 3 5),
            b = parseInt16 (slice (the hex) 5 7)\<rparr>)"

text \<open>
  The argument of \<open>doc.save\<close>: \<open>`${data.title.replace(/[^a-z0-9]/gi, '_').toLowerCase()}.pdf`\<close>.
  The pattern has the flags \<open>g\<close> and \<open>i\<close> and no \<open>u\<close>: every code unit outside the class
  is replaced, one by one, and the class holds, up to ASCII case, the ASCII letters and
  digits only (a non-ASCII code unit is never identified with an ASCII one). After the
  replacement the string consists of ASCII letters, digits and underscores, on which
  \<open>toLowerCase\<close> is the ASCII lower-casing below.
\<close>

definition is_alnum :: "nat \<Rightarrow> bool" where
  "is_alnum c = ((48 \<le> c \<and> c \<le> 57) \<or> (65 \<le> c \<and> c \<le> 90) \<or> (97 \<le> c \<and> c \<le> 122))"

definition replace_non_alnum :: "jsstring \<Rightarrow> jsstring" where
  "replace_non_alnum s = map (\<lambda>c. if is_alnum c then c else 95) s"

definition toLowerCase :: "jsstring \<Rightarrow> jsstring" where
  "toLowerCase s = map (\<lambda>c. if 65 \<le> c \<and> c \<le> 90 then c + 32 else c) s"

definition pdf_filename :: "jsstring \<Rightarrow> jsstring" where
  "pdf_filename t = toLowerCase (replace_non_alnum t) @ js ''.pdf''"

text \<open>
  The reading of the specification under which the characters that are not alphanumeric
  are stripped, that is removed, from the title.
\<close>

definition strip_non_alnum :: "jsstring \<Rightarrow> jsstring" where
  "strip_non_alnum s = filter is_alnum s"

section \<open>Concrete backends\<close>

text \<open>Errors and operations on which the theorems below are instantiated.\<close>

definition rate_limited :: js_error where
  "rate_limited = \<lparr>status = Some 429, code = None, message = Some (js ''busy'')\<rparr>"

definition forbidden :: js_error where
  "forbidden = \<lparr>status = Some 403, code = None, message = Some (js ''forbidden'')\<rparr>"

definition always_limited :: "nat \<Rightarrow> js_error + nat" where
  "always_limited i = Inl rate_limited"

definition limited_twice :: "nat \<Rightarrow> js_error + nat" where
  "limited_twice i = (if i < 2 then Inl rate_limited else Inr 7)"

definition always_forbidden :: "nat \<Rightarrow> js_error + nat" where
  "always_forbidden i = Inl forbidden"

text \<open>
  When the promises of the batch that starts at \<open>i\<close> all settle, and when those of every
  batch of a run do.
\<close>

definition batch_settles :: "(nat \<Rightarrow> nat list) \<Rightarrow> jsstring list \<Rightarrow> nat \<Rightarrow> bool" where
  "batch_settles settle titles i =
     (\<forall>k<length (take batchSize (drop i titles)). k \<in> set (settle i))"

definition all_settle :: "(nat \<Rightarrow> nat list) \<Rightarrow> jsstring list \<Rightarrow> bool" where
  "all_settle settle titles =
     (\<forall>m. m * batchSize < length titles \<longrightarrow> batch_settles settle titles (m * batchSize))"

text \<open>A response of the image backend in which no part carries inline data.\<close>

definition no_inline_part :: "response \<Rightarrow> bool" where
  "no_inline_part imageResult =
     (case first_parts imageResult of
        None \<Rightarrow> True
      | Some parts \<Rightarrow> list_all (\<lambda>part. part = None) parts)"

text \<open>
  A backend for a book of four chapters: the text request of the second chapter is refused,
  that of the third is answered with no text payload, every image request is rate-limited,
  and the parsed content of a payload is the payload itself. In the batched run the third
  promise of the first batch settles first.
\<close>

definition demo_outline :: outline_data where
  "demo_outline =
     \<lparr>title = js ''My Book!'', subtitle = js ''s'', author = js ''a'', summary = js ''r'',
      colorTheme = js ''#1e293b'',
      chapterTitles = Some [js ''A'', js ''B'', js ''C'', js ''D'']\<rparr>"

definition text_response :: "jsstring \<Rightarrow> response" where
  "text_response s = \<lparr>resp_text = Some s, first_parts = None\<rparr>"

definition empty_response :: response where
  "empty_response = \<lparr>resp_text = None, first_parts = None\<rparr>"

definition demo_text_request :: "nat \<Rightarrow> nat \<Rightarrow> js_error + response" where
  "demo_text_request i j =
     (if i = 1 then Inl forbidden
      else if i = 2 then Inr empty_response
      else Inr (text_response (js ''body'')))"

definition demo_env :: env where
  "demo_env =
     \<lparr>outline_request = (\<lambda>j. Inr (text_response (js ''outline''))),
      text_request = demo_text_request,
      image_request = (\<lambda>i j. Inl rate_limited),
      parse_outline = (\<lambda>s. Inr demo_outline),
      parse_content = (\<lambda>s. Inr (Str s))\<rparr>"

definition demo_settle :: "nat \<Rightarrow> nat list" where
  "demo_settle i = (if i = 0 then [2, 0, 1] else [0])"

text \<open>
  A backend for a book of one chapter whose text payloads are the JSON text \<open>{}\<close>. It
  parses to an object without a \<open>content\<close> property, so \<open>JSON.parse(...).content\<close> is
  \<open>undefined\<close>, which is not a string. The response schema of the text request declares
  \<open>content\<close> without requiring it.
\<close>

definition bare_outline :: outline_data where
  "bare_outline =
     \<lparr>title = js ''T'', subtitle = js ''s'', author = js ''a'', summary = js ''r'',
      colorTheme = js ''#1e293b'', chapterTitles = Some [js ''A'']\<rparr>"

definition bare_env :: env where
  "bare_env =
     \<lparr>outline_request = (\<lambda>j. Inr (text_response (js ''outline''))),
      text_request = (\<lambda>i j. Inr (text_response (js ''{}''))),
      image_request = (\<lambda>i j. Inl rate_limited),
      parse_outline = (\<lambda>s. Inr bare_outline),
      parse_content = (\<lambda>s. Inr NotString)\<rparr>"

definition bare_settle :: "nat \<Rightarrow> nat list" where
  "bare_settle i = [0]"

section \<open>Properties of the retry wrapper\<close>

lemma emit_Nil: "emit [] res = res"
  by (simp add: emit_def)

lemma emit_emit: "emit xs (emit ys res) = emit (xs @ ys) res"
  by (simp add: emit_def)

lemma fst_emit: "fst (emit evs res) = fst res"
  by (simp add: emit_def)

lemma snd_emit: "snd (emit evs res) = evs @ snd res"
  by (simp add: emit_def)

lemma sleeps_append: "sleeps (xs @ ys) = sleeps xs @ sleeps ys"
  by (simp add: sleeps_def)

lemma sleeps_Invoke: "sleeps [Invoke n] = []"
  by (simp add: sleeps_def)

lemma invocations_append: "invocations (xs @ ys) = invocations xs + invocations ys"
  by (simp add: invocations_def)

lemma invocations_Invoke: "invocations [Invoke n] = 1"
  by (simp add: invocations_def)

lemma backoff_events_snoc:
  "i \<le> k \<Longrightarrow> backoff_events n d i (Suc k) =
     backoff_events n d i k @ [Invoke n, Progress (AltaDemanda n (d * 2 ^ k)), Sleep (d * 2 ^ k)]"
  by (simp add: backoff_events_def)

lemma sleeps_backoff_events:
  "sleeps (backoff_events n d i k) = map (\<lambda>j. d * 2 ^ j) [i..<k]"
  by (induction k) (auto simp: backoff_events_def sleeps_def)

lemma invocations_backoff_events: "invocations (backoff_events n d i k) = k - i"
  by (induction k) (auto simp: backoff_events_def invocations_def Suc_diff_le)

lemma sum_list_backoff:
  "sum_list (map (\<lambda>j. d * 2 ^ j) [0..<k]) = (d::nat) * (\<Sum>j<k. 2 ^ j)"
  by (induction k) (auto simp: algebra_simps)

text \<open>One rate-limited attempt that is not the last: the loop waits and goes on.\<close>

lemma callWithRetry_loop_retry:
  assumes "fn i = Inl e" and "isRateLimit e" and "i < retries - 1"
  shows "callWithRetry_loop n fn retries d i =
           emit [Invoke n, Progress (AltaDemanda n (d * 2 ^ i)), Sleep (d * 2 ^ i)]
             (callWithRetry_loop n fn retries d (Suc i))"
proof -
  from assms(3) have "i < retries" by simp
  with assms show ?thesis by (subst callWithRetry_loop.simps) simp
qed

text \<open>An attempt that succeeds ends the loop with its value.\<close>

lemma callWithRetry_loop_success:
  assumes "fn i = Inr v" and "i < retries"
  shows "callWithRetry_loop n fn retries d i = (Inr v, [Invoke n])"
  using assms by (subst callWithRetry_loop.simps) simp

text \<open>A failed attempt that is the last one, or not rate-limited, ends the loop with its error.\<close>

lemma callWithRetry_loop_throw:
  assumes "fn i = Inl e" and "i < retries" and "\<not> isRateLimit e \<or> \<not> i < retries - 1"
  shows "callWithRetry_loop n fn retries d i = (Inl e, [Invoke n])"
  using assms by (subst callWithRetry_loop.simps) auto

text \<open>With no attempt left the loop is not entered.\<close>

lemma callWithRetry_loop_done:
  assumes "\<not> i < retries"
  shows "callWithRetry_loop n fn retries d i = (Inl (terminal_failure n), [])"
  using assms by (subst callWithRetry_loop.simps) simp

text \<open>A run of rate-limited attempts from \<open>i\<close> up to \<open>k\<close>, all before the last attempt.\<close>

lemma callWithRetry_loop_backoff:
  assumes "\<forall>j. i \<le> j \<and> j < k \<longrightarrow> (\<exists>e. fn j = Inl e \<and> isRateLimit e)"
    and "i \<le> k" and "k < retries"
  shows "callWithRetry_loop n fn retries d i =
           emit (backoff_events n d i k) (callWithRetry_loop n fn retries d k)"
  using assms
proof (induction k)
  case 0
  then show ?case by (simp add: backoff_events_def emit_Nil)
next
  case (Suc k)
  show ?case
  proof (cases "i = Suc k")
    case True
    then show ?thesis by (simp add: backoff_events_def emit_Nil)
  next
    case False
    with Suc.prems have ik: "i \<le> k" and kr: "k < retries - 1" by auto
    from Suc.prems ik obtain e where e: "fn k = Inl e" "isRateLimit e" by auto
    have "callWithRetry_loop n fn retries d i =
        emit (backoff_events n d i k) (callWithRetry_loop n fn retries d k)"
      using Suc.IH Suc.prems ik by auto
    then show ?thesis
      using ik by (simp add: callWithRetry_loop_retry [where fn = fn and i = k, OF e kr] emit_emit backoff_events_snoc)
  qed
qed

lemma callWithRetry_prefix:
  assumes "\<forall>i<k. \<exists>e. fn i = Inl e \<and> isRateLimit e" and "k < retries"
  shows "callWithRetry n fn retries d =
           emit (backoff_events n d 0 k) (callWithRetry_loop n fn retries d k)"
  unfolding callWithRetry_def using assms by (intro callWithRetry_loop_backoff) auto

text \<open>The classification, read off the three properties of the error.\<close>

lemma not_isRateLimit:
  assumes "status e \<noteq> Some 429" and "code e \<noteq> Some 429"
    and "\<forall>m. message e = Some m \<longrightarrow> \<not> rate_limit_pattern m"
  shows "\<not> isRateLimit e"
  using assms by (auto simp: isRateLimit_def split: option.splits)

lemma isRateLimit_rate_limited: "isRateLimit rate_limited"
  by (simp add: isRateLimit_def rate_limited_def)

lemma not_pattern_forbidden: "\<not> rate_limit_pattern (js ''forbidden'')"
  by (simp add: rate_limit_pattern_def js_def canonicalize_def)

text \<open>The error thrown after the loop names the operation.\<close>

lemma occurs_in_prefix: "starts_with p (p @ s)"
  by (induction p) auto

lemma occurs_in_append: "occurs_in p (a @ p @ s)"
proof (induction a)
  case Nil
  show ?case by (cases "p @ s") (use occurs_in_prefix [of p s] in auto)
next
  case (Cons c a)
  then show ?case by simp
qed

lemma terminal_failure_names_operation: "names_operation n (terminal_failure n)"
proof -
  have "terminal_message n = (js ''Falha na opera'' @ [0xE7, 0xE3] @ js ''o '') @ n @
      (js '' ap'' @ [0xF3] @ js ''s tentativas.'')"
    by (simp add: terminal_message_def)
  then have "occurs_in n (terminal_message n)"
    by (simp only: occurs_in_append)
  then show ?thesis
    by (simp add: names_operation_def terminal_failure_def new_Error_def)
qed

lemma callWithRetry_no_attempt:
  "callWithRetry n fn 0 d = (Inl (terminal_failure n), [])"
  by (simp add: callWithRetry_def callWithRetry_loop_done)

text \<open>
  Claim C2. If the operation fails with a rate-limit error on each of its first \<open>k\<close>
  attempts and succeeds on the next one, with \<open>k < retries\<close>, the wrapper returns the value
  of the success. Its events are, for each failed attempt in turn, the invocation, a progress
  message and a wait, and then the successful invocation: it waits exactly \<open>k\<close> times, for
  \<open>baseDelay * 2 ^ 0\<close>, ..., \<open>baseDelay * 2 ^ (k - 1)\<close> milliseconds in this order, each wait
  directly preceded by its progress message, and the waits add up to
  \<open>baseDelay * (2 ^ 0 + ... + 2 ^ (k - 1))\<close>.
\<close>

theorem callWithRetry_backoff:
  assumes "k < retries"
    and "\<forall>i<k. \<exists>e. fn i = Inl e \<and> isRateLimit e"
    and "fn k = Inr v"
  shows "fst (callWithRetry operationName fn retries baseDelay) = Inr v \<and>
         snd (callWithRetry operationName fn retries baseDelay) =
           backoff_events operationName baseDelay 0 k @ [Invoke operationName] \<and>
         sleeps (snd (callWithRetry operationName fn retries baseDelay)) =
           map (\<lambda>i. baseDelay * 2 ^ i) [0..<k] \<and>
         sum_list (sleeps (snd (callWithRetry operationName fn retries baseDelay))) =
           baseDelay * (\<Sum>i<k. 2 ^ i)"
proof -
  have "callWithRetry operationName fn retries baseDelay =
      emit (backoff_events operationName baseDelay 0 k)
        (callWithRetry_loop operationName fn retries baseDelay k)"
    using assms(2,1) by (rule callWithRetry_prefix)
  then have res: "callWithRetry operationName fn retries baseDelay =
      (Inr v, backoff_events operationName baseDelay 0 k @ [Invoke operationName])"
    by (simp add: callWithRetry_loop_success [where fn = fn and i = k, OF assms(3,1)] emit_def)
  show ?thesis
    by (simp add: res sleeps_append sleeps_backoff_events sleeps_Invoke sum_list_backoff)
qed

theorem callWithRetry_backoff_witness:
  "fst (callWithRetry (js ''op'') limited_twice 3 4000) = Inr 7 \<and>
   sleeps (snd (callWithRetry (js ''op'') limited_twice 3 4000)) = [4000, 8000] \<and>
   sum_list (sleeps (snd (callWithRetry (js ''op'') limited_twice 3 4000))) = 12000"
proof -
  have k: "(2::nat) < 3" by simp
  have fails: "\<forall>i<2. \<exists>e. limited_twice i = Inl e \<and> isRateLimit e"
    by (simp add: limited_twice_def isRateLimit_rate_limited)
  have ok: "limited_twice 2 = Inr 7"
    by (simp add: limited_twice_def)
  note run = callWithRetry_backoff [OF k fails ok, of "js ''op''" 4000]
  have upt: "[0..<2] = [0, Suc 0]"
    by (simp add: upt_rec)
  have total: "(\<Sum>i<2. (2::nat) ^ i) = 3"
    by (simp add: lessThan_Suc numeral_2_eq_2)
  from run have "fst (callWithRetry (js ''op'') limited_twice 3 4000) = Inr 7"
    by (rule conjunct1)
  moreover from run
  have "sleeps (snd (callWithRetry (js ''op'') limited_twice 3 4000)) =
      map (\<lambda>i. 4000 * 2 ^ i) [0..<2]"
    by (elim conjE)
  moreover from run
  have "sum_list (sleeps (snd (callWithRetry (js ''op'') limited_twice 3 4000))) =
      4000 * (\<Sum>i<2. 2 ^ i)"
    by (elim conjE)
  ultimately show ?thesis
    by (simp add: upt total)
qed

text \<open>
  Once the loop is entered, what the wrapper returns or throws is the outcome of one of
  the attempts: it makes no value of its own.
\<close>

lemma callWithRetry_loop_outcome:
  "i < retries \<Longrightarrow>
     \<exists>j. i \<le> j \<and> j < retries \<and> fst (callWithRetry_loop n fn retries d i) = fn j"
proof (induction n fn retries d i rule: callWithRetry_loop.induct)
  case (1 n fn retries d i)
  show ?case
  proof (cases "fn i")
    case (Inr v)
    with "1.prems" have "fst (callWithRetry_loop n fn retries d i) = fn i"
      by (simp add: callWithRetry_loop_success [where fn = fn and i = i])
    with "1.prems" show ?thesis by auto
  next
    case (Inl e)
    show ?thesis
    proof (cases "isRateLimit e \<and> i < retries - 1")
      case True
      then have next_attempt: "i + 1 < retries" by arith
      from True Inl have "fst (callWithRetry_loop n fn retries d i) =
          fst (callWithRetry_loop n fn retries d (i + 1))"
        by (simp add: callWithRetry_loop_retry [where fn = fn and i = i] fst_emit)
      moreover from "1.IH" [OF "1.prems" Inl True next_attempt]
      obtain j where "i + 1 \<le> j" and "j < retries"
        and "fst (callWithRetry_loop n fn retries d (i + 1)) = fn j"
        by blast
      ultimately show ?thesis
        by (intro exI [of _ j]) simp
    next
      case False
      with Inl "1.prems" have "fst (callWithRetry_loop n fn retries d i) = fn i"
        by (simp add: callWithRetry_loop_throw [where fn = fn and i = i])
      with "1.prems" show ?thesis by auto
    qed
  qed
qed

lemma callWithRetry_outcome:
  "0 < retries \<Longrightarrow> \<exists>j<retries. fst (callWithRetry n fn retries d) = fn j"
  unfolding callWithRetry_def using callWithRetry_loop_outcome [of 0 retries n fn d] by auto

text \<open>
  Claim C3, as the wrapper behaves. When the operation fails on every one of its
  \<open>retries\<close> attempts, \<open>retries\<close> being positive (the failures before the last one are
  rate-limit errors, so that all attempts are made), the wrapper throws the error of the
  last attempt itself, after \<open>retries\<close> invocations and \<open>retries - 1\<close> waits. The wrapper
  makes the failure whose message names the operation only when \<open>retries\<close> is 0, where no
  attempt is made: then it throws that failure, and whenever \<open>retries\<close> is positive what it
  returns or throws is the outcome of one of the attempts.
\<close>

theorem callWithRetry_exhausted:
  "(0 < retries \<and> (\<forall>i<retries - 1. \<exists>e. fn i = Inl e \<and> isRateLimit e) \<and>
    fn (retries - 1) = Inl error \<longrightarrow>
      fst (callWithRetry operationName fn retries baseDelay) = Inl error \<and>
      invocations (snd (callWithRetry operationName fn retries baseDelay)) = retries \<and>
      sleeps (snd (callWithRetry operationName fn retries baseDelay)) =
        map (\<lambda>i. baseDelay * 2 ^ i) [0..<retries - 1]) \<and>
   callWithRetry operationName fn 0 baseDelay = (Inl (terminal_failure operationName), []) \<and>
   names_operation operationName (terminal_failure operationName) \<and>
   (0 < retries \<longrightarrow>
      (\<exists>j<retries. fst (callWithRetry operationName fn retries baseDelay) = fn j))"
proof (intro conjI impI)
  assume a: "0 < retries \<and> (\<forall>i<retries - 1. \<exists>e. fn i = Inl e \<and> isRateLimit e) \<and>
    fn (retries - 1) = Inl error"
  then have last: "retries - 1 < retries" by simp
  from a have fails: "\<forall>i<retries - 1. \<exists>e. fn i = Inl e \<and> isRateLimit e"
    and thrown: "fn (retries - 1) = Inl error"
    by simp_all
  have "callWithRetry operationName fn retries baseDelay =
      emit (backoff_events operationName baseDelay 0 (retries - 1))
        (callWithRetry_loop operationName fn retries baseDelay (retries - 1))"
    using fails last by (rule callWithRetry_prefix)
  moreover have "callWithRetry_loop operationName fn retries baseDelay (retries - 1) =
      (Inl error, [Invoke operationName])"
    using thrown last
    by (rule callWithRetry_loop_throw [where fn = fn and i = "retries - 1"]) simp
  ultimately have res: "callWithRetry operationName fn retries baseDelay =
      (Inl error, backoff_events operationName baseDelay 0 (retries - 1) @ [Invoke operationName])"
    by (simp add: emit_def)
  show "fst (callWithRetry operationName fn retries baseDelay) = Inl error"
    by (simp add: res)
  from a show "invocations (snd (callWithRetry operationName fn retries baseDelay)) = retries"
    by (simp add: res invocations_append invocations_backoff_events invocations_Invoke)
  show "sleeps (snd (callWithRetry operationName fn retries baseDelay)) =
      map (\<lambda>i. baseDelay * 2 ^ i) [0..<retries - 1]"
    by (simp add: res sleeps_append sleeps_backoff_events sleeps_Invoke)
next
  show "callWithRetry operationName fn 0 baseDelay = (Inl (terminal_failure operationName), [])"
    by (rule callWithRetry_no_attempt)
  show "names_operation operationName (terminal_failure operationName)"
    by (rule terminal_failure_names_operation)
next
  assume "0 < retries"
  then show "\<exists>j<retries. fst (callWithRetry operationName fn retries baseDelay) = fn j"
    by (rule callWithRetry_outcome)
qed

theorem callWithRetry_exhausted_witness:
  "fst (callWithRetry (js ''Imagem Cap 1'') always_limited 2 4000) = Inl rate_limited \<and>
   invocations (snd (callWithRetry (js ''Imagem Cap 1'') always_limited 2 4000)) = 2 \<and>
   sleeps (snd (callWithRetry (js ''Imagem Cap 1'') always_limited 2 4000)) = [4000]"
proof -
  have fails: "\<forall>i<2 - 1. \<exists>e. always_limited i = Inl e \<and> isRateLimit e"
    by (simp add: always_limited_def isRateLimit_rate_limited)
  have last: "always_limited (2 - 1) = Inl rate_limited"
    by (simp add: always_limited_def)
  from callWithRetry_exhausted [of 2 always_limited rate_limited "js ''Imagem Cap 1''" 4000,
      THEN conjunct1] fails last
  show ?thesis
    by simp
qed

text \<open>
  The claim as the specification states it fails: an operation that answers every one of
  three attempts with a rate-limit error makes the wrapper throw that error, which is not
  the failure naming the operation and whose message does not contain the name.
\<close>

theorem callWithRetry_exhausted_counterexample:
  "fst (callWithRetry (js ''op'') always_limited 3 4000) = Inl rate_limited \<and>
   invocations (snd (callWithRetry (js ''op'') always_limited 3 4000)) = 3 \<and>
   rate_limited \<noteq> terminal_failure (js ''op'') \<and>
   \<not> names_operation (js ''op'') rate_limited"
proof -
  have a0: "always_limited 0 = Inl rate_limited" and a1: "always_limited 1 = Inl rate_limited"
    and a2: "always_limited 2 = Inl rate_limited"
    by (simp_all add: always_limited_def)
  have l2: "callWithRetry_loop (js ''op'') always_limited 3 4000 2 =
      (Inl rate_limited, [Invoke (js ''op'')])"
    using a2 by (rule callWithRetry_loop_throw [where fn = always_limited and i = 2]) simp_all
  have l1: "callWithRetry_loop (js ''op'') always_limited 3 4000 1 =
      emit [Invoke (js ''op''), Progress (AltaDemanda (js ''op'') (4000 * 2 ^ 1)),
            Sleep (4000 * 2 ^ 1)]
        (callWithRetry_loop (js ''op'') always_limited 3 4000 (Suc 1))"
    using a1 isRateLimit_rate_limited
    by (rule callWithRetry_loop_retry [where fn = always_limited and i = 1]) simp
  have l0: "callWithRetry_loop (js ''op'') always_limited 3 4000 0 =
      emit [Invoke (js ''op''), Progress (AltaDemanda (js ''op'') (4000 * 2 ^ 0)),
            Sleep (4000 * 2 ^ 0)]
        (callWithRetry_loop (js ''op'') always_limited 3 4000 (Suc 0))"
    using a0 isRateLimit_rate_limited
    by (rule callWithRetry_loop_retry [where fn = always_limited and i = 0]) simp
  have res: "callWithRetry (js ''op'') always_limited 3 4000 =
      (Inl rate_limited,
       [Invoke (js ''op''), Progress (AltaDemanda (js ''op'') 4000), Sleep 4000,
        Invoke (js ''op''), Progress (AltaDemanda (js ''op'') 8000), Sleep 8000,
        Invoke (js ''op'')])"
    using l0 l1 l2 by (simp add: callWithRetry_def emit_def numeral_2_eq_2)
  have differ: "rate_limited \<noteq> terminal_failure (js ''op'')"
    by (simp add: rate_limited_def terminal_failure_def new_Error_def)
  have unnamed: "\<not> names_operation (js ''op'') rate_limited"
    by (simp add: names_operation_def rate_limited_def js_def)
  show ?thesis
    using differ unnamed by (simp add: res invocations_def)
qed

text \<open>
  Claim C4. An error that is not classified as a rate-limit error (neither its status nor
  its code is 429 and its message, if it has one, does not match the pattern) is thrown to
  the caller when the first attempt raises it: the wrapper makes that one invocation, waits
  for nothing, reports no progress and does not call the operation again. There is a first
  attempt as soon as \<open>retries\<close> is positive.
\<close>

theorem callWithRetry_not_rate_limit:
  assumes "0 < retries"
    and "fn 0 = Inl error"
    and "status error \<noteq> Some 429"
    and "code error \<noteq> Some 429"
    and "\<forall>m. message error = Some m \<longrightarrow> \<not> rate_limit_pattern m"
  shows "callWithRetry operationName fn retries baseDelay =
           (Inl error, [Invoke operationName]) \<and>
         sleeps (snd (callWithRetry operationName fn retries baseDelay)) = [] \<and>
         invocations (snd (callWithRetry operationName fn retries baseDelay)) = 1"
proof -
  have "\<not> isRateLimit error"
    using assms(3-5) by (rule not_isRateLimit)
  then have "callWithRetry operationName fn retries baseDelay =
      (Inl error, [Invoke operationName])"
    unfolding callWithRetry_def using assms(1,2)
    by (intro callWithRetry_loop_throw [where fn = fn and i = 0]) auto
  then show ?thesis
    by (simp add: sleeps_Invoke invocations_Invoke)
qed

theorem callWithRetry_not_rate_limit_witness:
  "callWithRetry (js ''Gerar Estrutura'') always_forbidden 3 4000 =
     (Inl forbidden, [Invoke (js ''Gerar Estrutura'')])"
proof -
  have r: "(0::nat) < 3" by simp
  have f: "always_forbidden 0 = Inl forbidden"
    by (simp add: always_forbidden_def)
  have s: "status forbidden \<noteq> Some 429" and c: "code forbidden \<noteq> Some 429"
    by (simp_all add: forbidden_def)
  have m: "\<forall>m. message forbidden = Some m \<longrightarrow> \<not> rate_limit_pattern m"
    by (simp add: forbidden_def not_pattern_forbidden)
  show ?thesis
    using callWithRetry_not_rate_limit [where fn = always_forbidden and
        operationName = "js ''Gerar Estrutura''" and baseDelay = 4000, OF r f s c m]
    by simp
qed

section \<open>Properties of the two pipelines\<close>

lemma truthy_Some: "truthy (Some s) = (s \<noteq> [])"
  by (simp add: truthy_def)

lemma truthy_None: "\<not> truthy None"
  by (simp add: truthy_def)

subsection \<open>The sequential loop pushes one chapter per title\<close>

lemma fst_chapters_loop:
  "fst (chapters_loop env titles i chs) =
     chs @ map (\<lambda>j. fst (chapter_step env (length titles) j (titles ! j))) [i..<length titles]"
proof (induction env titles i chs rule: chapters_loop.induct)
  case (1 env titles i chs)
  show ?case
  proof (cases "i < length titles")
    case True
    obtain c evs where step: "chapter_step env (length titles) i (titles ! i) = (c, evs)"
      by (cases "chapter_step env (length titles) i (titles ! i)")
    have "fst (chapters_loop env titles i chs) =
        fst (chapters_loop env titles (i + 1) (chs @ [c]))"
      by (subst chapters_loop.simps) (simp add: True step fst_emit)
    also have "\<dots> = (chs @ [c]) @
        map (\<lambda>j. fst (chapter_step env (length titles) j (titles ! j))) [i + 1..<length titles]"
      using "1.IH" [OF True step [symmetric]] .
    finally show ?thesis
      using True by (simp add: upt_conv_Cons step)
  next
    case False
    then show ?thesis
      by (subst chapters_loop.simps) simp
  qed
qed

lemma fst_generateMaterial:
  assumes "fst (outline_step env) = Inr outline" and "chapterTitles outline = Some titles"
  shows "fst (generateMaterial env) =
     Inr \<lparr>title = title outline, subtitle = subtitle outline, author = author outline,
          summary = summary outline, colorTheme = colorTheme outline,
          chapters = map (\<lambda>j. fst (chapter_step env (length titles) j (titles ! j)))
                       [0..<length titles]\<rparr>"
proof -
  obtain evs where o: "outline_step env = (Inr outline, evs)"
    using assms(1) by (cases "outline_step env") simp
  obtain chs ch_evs where l: "chapters_loop env titles 0 [] = (chs, ch_evs)"
    by (cases "chapters_loop env titles 0 []")
  have "chs = map (\<lambda>j. fst (chapter_step env (length titles) j (titles ! j))) [0..<length titles]"
    using fst_chapters_loop [of env titles 0 "[]"] l by simp
  then show ?thesis
    by (simp add: generateMaterial_def o assms(2) l fst_emit)
qed

text \<open>What one iteration pushes, case by case.\<close>

lemma chapter_step_title: "ch_title (fst (chapter_step env n i t)) = t"
  by (auto simp: chapter_step_def failed_chapter_def split: prod.splits sum.splits)

lemma chapter_step_failed:
  assumes "fst (callWithRetry (js ''Texto Cap '' @ show_nat (i + 1)) (text_request env i)
             default_retries default_baseDelay) = Inl e"
  shows "fst (chapter_step env n i t) = failed_chapter t"
  using assms by (auto simp: chapter_step_def split: prod.splits sum.splits)

lemma chapter_step_parse_failed:
  assumes "fst (callWithRetry (js ''Texto Cap '' @ show_nat (i + 1)) (text_request env i)
             default_retries default_baseDelay) = Inr textResult"
    and "chapter_text env textResult = Inl e"
  shows "fst (chapter_step env n i t) = failed_chapter t"
  using assms by (auto simp: chapter_step_def split: prod.splits sum.splits)

lemma chapter_step_pushed:
  assumes "fst (callWithRetry (js ''Texto Cap '' @ show_nat (i + 1)) (text_request env i)
             default_retries default_baseDelay) = Inr textResult"
    and "chapter_text env textResult = Inr body"
  shows "fst (chapter_step env n i t) =
           \<lparr>ch_title = t, ch_content = body, ch_image = fst (image_step env i)\<rparr>"
  using assms by (auto simp: chapter_step_def split: prod.splits sum.splits)

text \<open>A value the wrapper returns is the value of one of the attempts.\<close>

lemma callWithRetry_loop_value:
  "fst (callWithRetry_loop n fn retries d i) = Inr v \<Longrightarrow> \<exists>j. fn j = Inr v"
proof (induction n fn retries d i rule: callWithRetry_loop.induct)
  case (1 n fn retries d i)
  show ?case
  proof (cases "fn i")
    case (Inr w)
    with "1.prems" show ?thesis
      by (subst (asm) callWithRetry_loop.simps)
        (auto simp: terminal_failure_def split: if_splits)
  next
    case (Inl e)
    show ?thesis
    proof (cases "i < retries \<and> isRateLimit e \<and> i < retries - 1")
      case True
      with Inl "1.prems" have "fst (callWithRetry_loop n fn retries d (i + 1)) = Inr v"
        by (subst (asm) callWithRetry_loop.simps) (simp add: fst_emit)
      with "1.IH" [of e] Inl True show ?thesis by simp
    next
      case False
      with Inl "1.prems" show ?thesis
        by (subst (asm) callWithRetry_loop.simps) (auto split: if_splits)
    qed
  qed
qed

lemma callWithRetry_value:
  "fst (callWithRetry n fn retries d) = Inr v \<Longrightarrow> \<exists>j. fn j = Inr v"
  unfolding callWithRetry_def by (rule callWithRetry_loop_value)

lemma chapter_text_cases:
  assumes "chapter_text env textResult = Inr body"
  shows "body = Str unavailable_body \<or>
         (truthy (resp_text textResult) \<and>
          parse_content env (the (resp_text textResult)) = Inr body)"
  using assms by (auto simp: chapter_text_def split: if_splits)

lemma chapter_step_body:
  "ch_content (fst (chapter_step env n i t)) = Str error_body \<or>
   ch_content (fst (chapter_step env n i t)) = Str unavailable_body \<or>
   (\<exists>j textResult. text_request env i j = Inr textResult \<and> truthy (resp_text textResult) \<and>
      parse_content env (the (resp_text textResult)) =
        Inr (ch_content (fst (chapter_step env n i t))))"
proof (cases "fst (callWithRetry (js ''Texto Cap '' @ show_nat (i + 1)) (text_request env i)
    default_retries default_baseDelay)")
  case (Inl e)
  then show ?thesis
    by (simp add: chapter_step_failed failed_chapter_def)
next
  case (Inr textResult)
  from callWithRetry_value [where fn = "text_request env i", OF Inr]
  obtain j where j: "text_request env i j = Inr textResult" ..
  show ?thesis
  proof (cases "chapter_text env textResult")
    case (Inl e)
    with Inr show ?thesis
      by (simp add: chapter_step_parse_failed failed_chapter_def)
  next
    case body: (Inr body)
    from chapter_text_cases [OF body] j show ?thesis
      by (auto simp: chapter_step_pushed [OF Inr body])
  qed
qed

subsection \<open>Awaiting a batch returns its values in index order\<close>

lemma length_settle_one: "length (settle_one vals slots k) = length slots"
  by (simp add: settle_one_def)

lemma length_foldl_settle: "length (foldl (settle_one vals) slots order) = length slots"
  by (induction order arbitrary: slots) (simp_all add: length_settle_one)

lemma nth_settle_one:
  "k < length slots \<Longrightarrow>
     settle_one vals slots j ! k = (if j = k then Some (vals ! k) else slots ! k)"
  by (simp add: settle_one_def)

lemma nth_foldl_settle:
  "k < length slots \<Longrightarrow>
     foldl (settle_one vals) slots order ! k =
       (if k \<in> set order then Some (vals ! k) else slots ! k)"
proof (induction order arbitrary: slots)
  case Nil
  then show ?case by simp
next
  case (Cons j order)
  from Cons.prems have "k < length (settle_one vals slots j)"
    by (simp add: length_settle_one)
  from Cons.IH [OF this] Cons.prems show ?case
    by (auto simp: nth_settle_one)
qed

lemma promise_all_Some:
  assumes "promise_all vals order = Some rs"
  shows "rs = vals"
proof -
  let ?slots = "foldl (settle_one vals) (replicate (length vals) None) order"
  have len: "length ?slots = length vals"
    by (simp add: length_foldl_settle)
  from assms have full: "list_all (\<lambda>slot. slot \<noteq> None) ?slots" and rs: "rs = map the ?slots"
    by (auto simp: promise_all_def Let_def split: if_splits)
  have "map the ?slots = vals"
  proof (rule nth_equalityI)
    show "length (map the ?slots) = length vals"
      using len by simp
  next
    fix k assume "k < length (map the ?slots)"
    then have k: "k < length vals" using len by simp
    then have "?slots ! k \<noteq> None"
      using full len by (simp add: list_all_length)
    moreover have "?slots ! k = (if k \<in> set order then Some (vals ! k) else None)"
      using k by (simp add: nth_foldl_settle)
    ultimately have "?slots ! k = Some (vals ! k)"
      by (simp split: if_splits)
    then show "map the ?slots ! k = vals ! k"
      using k len by simp
  qed
  with rs show ?thesis by simp
qed

lemma promise_all_settled:
  assumes "\<forall>k<length vals. k \<in> set order"
  shows "promise_all vals order = Some vals"
proof -
  let ?slots = "foldl (settle_one vals) (replicate (length vals) None) order"
  have len: "length ?slots = length vals"
    by (simp add: length_foldl_settle)
  have nth: "?slots ! k = Some (vals ! k)" if "k < length vals" for k
    using that assms by (simp add: nth_foldl_settle)
  have "list_all (\<lambda>slot. slot \<noteq> None) ?slots"
    using len nth by (simp add: list_all_length)
  moreover have "map the ?slots = vals"
    using len nth by (intro nth_equalityI) simp_all
  ultimately show ?thesis
    by (simp add: promise_all_def Let_def)
qed

subsection \<open>The batched loop appends each batch at its place\<close>

lemma batch_values:
  "map (\<lambda>(j, chapterTitle). chapter_task env j chapterTitle)
       (enumerate i (take batchSize (drop i titles))) =
   map (\<lambda>j. chapter_task env j (titles ! j)) [i..<min (i + batchSize) (length titles)]"
proof (rule nth_equalityI)
  show "length (map (\<lambda>(j, chapterTitle). chapter_task env j chapterTitle)
          (enumerate i (take batchSize (drop i titles)))) =
        length (map (\<lambda>j. chapter_task env j (titles ! j))
          [i..<min (i + batchSize) (length titles)])"
    by (auto simp: min_def)
next
  fix k
  assume "k < length (map (\<lambda>(j, chapterTitle). chapter_task env j chapterTitle)
    (enumerate i (take batchSize (drop i titles))))"
  then have k: "k < batchSize" "i + k < length titles"
    by auto
  then have less: "i + k < min (i + batchSize) (length titles)"
    by simp
  from k have "k < length [i..<min (i + batchSize) (length titles)]"
    by (auto simp: min_def)
  then have "map (\<lambda>j. chapter_task env j (titles ! j))
      [i..<min (i + batchSize) (length titles)] ! k = chapter_task env (i + k) (titles ! (i + k))"
    by (simp only: nth_map nth_upt [OF less])
  moreover have "map (\<lambda>(j, chapterTitle). chapter_task env j chapterTitle)
      (enumerate i (take batchSize (drop i titles))) ! k =
      chapter_task env (i + k) (titles ! (i + k))"
    using k by (simp add: nth_enumerate_eq)
  ultimately show "map (\<lambda>(j, chapterTitle). chapter_task env j chapterTitle)
      (enumerate i (take batchSize (drop i titles))) ! k =
    map (\<lambda>j. chapter_task env j (titles ! j)) [i..<min (i + batchSize) (length titles)] ! k"
    by simp
qed

lemma batches_loop_step:
  assumes "i < length titles"
  shows "batches_loop env settle titles i chs =
     (case promise_all
             (map (\<lambda>j. chapter_task env j (titles ! j)) [i..<min (i + batchSize) (length titles)])
             (settle i) of
        None \<Rightarrow> None
      | Some batchResults \<Rightarrow>
          map_option
            (emit [Progress (EscrevendoLote (Suc i) (min (i + batchSize) (length titles))
                     (length titles))])
            (batches_loop env settle titles (i + batchSize) (chs @ batchResults)))"
  using assms by (subst batches_loop.simps) (simp add: Let_def batch_values)

lemma batches_loop_done:
  assumes "\<not> i < length titles"
  shows "batches_loop env settle titles i chs = Some (chs, [])"
  using assms by (subst batches_loop.simps) simp

lemma upt_split_batch:
  assumes "i < n"
  shows "[i..<n] = [i..<min (i + batchSize) n] @ [i + batchSize..<n]"
proof (cases "i + batchSize \<le> n")
  case True
  then have "[i..<n] = [i..<i + batchSize] @ [i + batchSize..<n]"
    using upt_add_eq_append [of i "i + batchSize" "n - (i + batchSize)"] by simp
  with True show ?thesis by (simp add: min_def)
next
  case False
  then show ?thesis by (simp add: min_def)
qed

text \<open>Whatever the settling orders are, a loop that returns has every chapter at its index.\<close>

lemma batches_loop_result:
  "batches_loop env settle titles i chs = Some (rs, evs) \<Longrightarrow>
     rs = chs @ map (\<lambda>j. chapter_task env j (titles ! j)) [i..<length titles]"
proof (induction "length titles - i" arbitrary: i chs rs evs rule: less_induct)
  case less
  show ?case
  proof (cases "i < length titles")
    case False
    with less.prems show ?thesis
      by (simp add: batches_loop_done)
  next
    case True
    let ?vals = "map (\<lambda>j. chapter_task env j (titles ! j))
      [i..<min (i + batchSize) (length titles)]"
    from less.prems obtain batchResults where
      all: "promise_all ?vals (settle i) = Some batchResults" and
      rest: "map_option
        (emit [Progress (EscrevendoLote (Suc i) (min (i + batchSize) (length titles))
                 (length titles))])
        (batches_loop env settle titles (i + batchSize) (chs @ batchResults)) = Some (rs, evs)"
      by (auto simp: batches_loop_step [OF True] split: option.splits)
    from rest obtain evs' where
      "batches_loop env settle titles (i + batchSize) (chs @ batchResults) = Some (rs, evs')"
      by (cases "batches_loop env settle titles (i + batchSize) (chs @ batchResults)")
        (auto simp: emit_def)
    moreover have "length titles - (i + batchSize) < length titles - i"
      using True by (simp add: batchSize_def)
    ultimately have "rs = (chs @ batchResults) @
        map (\<lambda>j. chapter_task env j (titles ! j)) [i + batchSize..<length titles]"
      by (rule less.hyps [rotated])
    moreover have "batchResults = ?vals"
      using all by (rule promise_all_Some)
    ultimately show ?thesis
      using upt_split_batch [OF True] by (simp flip: map_append)
  qed
qed

text \<open>When the promises of every batch from \<open>i\<close> on settle, the loop returns.\<close>

lemma batches_loop_returns:
  "(\<forall>m. i + m * batchSize < length titles \<longrightarrow>
        batch_settles settle titles (i + m * batchSize)) \<Longrightarrow>
     \<exists>rs evs. batches_loop env settle titles i chs = Some (rs, evs)"
proof (induction "length titles - i" arbitrary: i chs rule: less_induct)
  case less
  show ?case
  proof (cases "i < length titles")
    case False
    then show ?thesis
      by (simp add: batches_loop_done)
  next
    case True
    let ?vals = "map (\<lambda>j. chapter_task env j (titles ! j))
      [i..<min (i + batchSize) (length titles)]"
    from less.prems [rule_format, of 0] True have "batch_settles settle titles i"
      by simp
    then have "\<forall>k<length (take batchSize (drop i titles)). k \<in> set (settle i)"
      by (simp only: batch_settles_def)
    moreover have "length ?vals = length (take batchSize (drop i titles))"
      using True by (auto simp: min_def)
    ultimately have "\<forall>k<length ?vals. k \<in> set (settle i)"
      by (simp only:)
    then have all: "promise_all ?vals (settle i) = Some ?vals"
      by (rule promise_all_settled)
    have "length titles - (i + batchSize) < length titles - i"
      using True by (simp add: batchSize_def)
    moreover have "\<forall>m. (i + batchSize) + m * batchSize < length titles \<longrightarrow>
        batch_settles settle titles ((i + batchSize) + m * batchSize)"
    proof (intro allI impI)
      fix m assume "(i + batchSize) + m * batchSize < length titles"
      with less.prems [rule_format, of "Suc m"]
      show "batch_settles settle titles ((i + batchSize) + m * batchSize)"
        by (simp add: add.assoc)
    qed
    ultimately obtain rs evs where
      "batches_loop env settle titles (i + batchSize) (chs @ ?vals) = Some (rs, evs)"
      using less.hyps [of "i + batchSize" "chs @ ?vals"] by blast
    then show ?thesis
      by (simp add: batches_loop_step [OF True] all emit_def)
  qed
qed

lemma generateMaterial_batched_result:
  assumes "outline_step_batched env = Inr outline" and "chapterTitles outline = Some titles"
    and "generateMaterial_batched env settle = Some (res, evs)"
  shows "res = Inr \<lparr>title = title outline, subtitle = subtitle outline,
          author = author outline, summary = summary outline,
          colorTheme = colorTheme outline,
          chapters = map (\<lambda>j. chapter_task env j (titles ! j)) [0..<length titles]\<rparr>"
proof -
  from assms obtain chs evs' where l: "batches_loop env settle titles 0 [] = Some (chs, evs')"
    by (cases "batches_loop env settle titles 0 []") (auto simp: generateMaterial_batched_def)
  from batches_loop_result [OF l]
  have "chs = map (\<lambda>j. chapter_task env j (titles ! j)) [0..<length titles]"
    by simp
  with assms l show ?thesis
    by (auto simp: generateMaterial_batched_def emit_def)
qed

lemma generateMaterial_batched_returns:
  assumes "outline_step_batched env = Inr outline" and "chapterTitles outline = Some titles"
    and "all_settle settle titles"
  shows "\<exists>res evs. generateMaterial_batched env settle = Some (res, evs)"
proof -
  from assms(3) have "\<forall>m. 0 + m * batchSize < length titles \<longrightarrow>
      batch_settles settle titles (0 + m * batchSize)"
    by (simp add: all_settle_def)
  from batches_loop_returns [OF this]
  obtain chs evs' where "batches_loop env settle titles 0 [] = Some (chs, evs')"
    by blast
  with assms(1,2) show ?thesis
    by (simp add: generateMaterial_batched_def emit_def)
qed

lemma chapter_task_title: "ch_title (chapter_task env j t) = t"
  by (simp add: chapter_task_def split: sum.splits)

lemma chapter_task_body:
  "ch_content (chapter_task env j t) = Str batch_error_body \<or>
   ch_content (chapter_task env j t) = Str not_generated_body \<or>
   (\<exists>result. text_request env j 0 = Inr result \<and> truthy (resp_text result) \<and>
      parse_content env (the (resp_text result)) = Inr (ch_content (chapter_task env j t)))"
  by (auto simp: chapter_task_def split: sum.splits)

subsection \<open>The image step never fails\<close>

lemma first_inline_None: "list_all (\<lambda>part. part = None) parts \<Longrightarrow> first_inline parts = None"
  by (induction parts rule: first_inline.induct) simp_all

lemma image_step_thrown:
  assumes "image_request env i 0 = Inl imgErr"
  shows "fst (image_step env i) = None"
proof -
  have "callWithRetry (js ''Imagem Cap '' @ show_nat (i + 1)) (image_request env i)
      1 default_baseDelay = (Inl imgErr, [Invoke (js ''Imagem Cap '' @ show_nat (i + 1))])"
    unfolding callWithRetry_def using assms
    by (intro callWithRetry_loop_throw [where fn = "image_request env i" and i = 0]) simp_all
  then show ?thesis
    by (simp add: image_step_def fst_emit)
qed

lemma image_step_no_inline:
  assumes "image_request env i 0 = Inr imageResult" and "no_inline_part imageResult"
  shows "fst (image_step env i) = None"
proof -
  have "callWithRetry (js ''Imagem Cap '' @ show_nat (i + 1)) (image_request env i)
      1 default_baseDelay = (Inr imageResult, [Invoke (js ''Imagem Cap '' @ show_nat (i + 1))])"
    unfolding callWithRetry_def using assms(1)
    by (intro callWithRetry_loop_success [where fn = "image_request env i" and i = 0]) simp_all
  then show ?thesis
    using assms(2)
    by (auto simp: image_step_def fst_emit no_inline_part_def first_inline_None
        split: option.splits)
qed

text \<open>The image backend has no influence on the title and the body of a chapter.\<close>

lemma outline_step_image: "outline_step (env\<lparr>image_request := f\<rparr>) = outline_step env"
  by (simp add: outline_step_def split: prod.splits sum.splits)

lemma chapter_step_image:
  "ch_title (fst (chapter_step (env\<lparr>image_request := f\<rparr>) n i t)) =
     ch_title (fst (chapter_step env n i t)) \<and>
   ch_content (fst (chapter_step (env\<lparr>image_request := f\<rparr>) n i t)) =
     ch_content (fst (chapter_step env n i t))"
  by (auto simp: chapter_step_def chapter_text_def failed_chapter_def
      split: prod.splits sum.splits)

subsection \<open>The sentinel bodies\<close>

lemma error_body_not_empty: "error_body \<noteq> []"
  by (simp add: error_body_def js_def)

lemma batch_error_body_not_empty: "batch_error_body \<noteq> []"
  by (simp add: batch_error_body_def js_def)

lemma unavailable_not_error: "unavailable_body \<noteq> error_body"
  by (simp add: unavailable_body_def error_body_def js_def)

lemma not_generated_not_error: "not_generated_body \<noteq> batch_error_body"
  by (simp add: not_generated_body_def batch_error_body_def js_def)

subsection \<open>The concrete backend\<close>

lemma demo_outline_step: "fst (outline_step demo_env) = Inr demo_outline"
proof -
  have "callWithRetry (js ''Gerar Estrutura'') (outline_request demo_env)
      default_retries default_baseDelay =
      (Inr (text_response (js ''outline'')), [Invoke (js ''Gerar Estrutura'')])"
    unfolding callWithRetry_def
    by (intro callWithRetry_loop_success [where fn = "outline_request demo_env" and i = 0])
      (simp_all add: demo_env_def default_retries_def)
  then show ?thesis
    by (simp add: outline_step_def text_response_def truthy_def js_def demo_env_def)
qed

lemma demo_outline_step_batched: "outline_step_batched demo_env = Inr demo_outline"
  by (simp add: outline_step_batched_def demo_env_def text_response_def truthy_def js_def)

lemma demo_titles: "chapterTitles demo_outline = Some [js ''A'', js ''B'', js ''C'', js ''D'']"
  by (simp add: demo_outline_def)

lemma demo_all_settle: "all_settle demo_settle [js ''A'', js ''B'', js ''C'', js ''D'']"
proof -
  let ?T = "[js ''A'', js ''B'', js ''C'', js ''D'']"
  have first: "batch_settles demo_settle ?T 0"
    by (auto simp: batch_settles_def demo_settle_def batchSize_def less_Suc_eq numeral_3_eq_3)
  have second: "batch_settles demo_settle ?T batchSize"
    by (auto simp: batch_settles_def demo_settle_def batchSize_def)
  have "batch_settles demo_settle ?T (m * batchSize)" if "m * batchSize < length ?T" for m
  proof -
    from that have "m = 0 \<or> m = 1"
      by (simp add: batchSize_def) arith
    with first second show ?thesis by auto
  qed
  then show ?thesis
    by (simp only: all_settle_def) blast
qed

subsection \<open>Claims on the assembled content\<close>

lemma nth_map_upt: "i < n \<Longrightarrow> map f [0..<n] ! i = f i"
  by simp

lemma titles_of_tasks:
  "map ch_title (map (\<lambda>j. chapter_task env j (T ! j)) [0..<length T]) = T"
  by (simp add: chapter_task_title comp_def map_nth)

text \<open>
  Claim C1, as the pipelines behave. In both variants, when the outline step succeeds with
  the chapter-title list \<open>T\<close>, the run returns a content with exactly \<open>length T\<close>
  chapters, none omitted; chapter \<open>i\<close> has the title \<open>T ! i\<close>, and its body is the error
  sentinel of the variant, the sentinel for an empty payload of the variant, or the value
  of \<open>JSON.parse(...).content\<close> on the non-empty text payload of a response to a text
  request of that chapter. That value is stored as it is: it is the generated text when
  the payload carries one and need not be a string otherwise. (The batched run returns once
  the promises of every batch have settled.)
\<close>

theorem chapters_match_titles:
  "(fst (outline_step env) = Inr outline \<and> chapterTitles outline = Some T \<longrightarrow>
      (\<exists>content. fst (generateMaterial env) = Inr content \<and>
         length (chapters content) = length T \<and>
         (\<forall>i<length T.
            ch_title (chapters content ! i) = T ! i \<and>
            (ch_content (chapters content ! i) = Str error_body \<or>
             ch_content (chapters content ! i) = Str unavailable_body \<or>
             (\<exists>j textResult. text_request env i j = Inr textResult \<and>
                truthy (resp_text textResult) \<and>
                parse_content env (the (resp_text textResult)) =
                  Inr (ch_content (chapters content ! i))))))) \<and>
   (outline_step_batched env = Inr outline \<and> chapterTitles outline = Some T \<and>
    all_settle settle T \<longrightarrow>
      (\<exists>content evs. generateMaterial_batched env settle = Some (Inr content, evs) \<and>
         length (chapters content) = length T \<and>
         (\<forall>i<length T.
            ch_title (chapters content ! i) = T ! i \<and>
            (ch_content (chapters content ! i) = Str batch_error_body \<or>
             ch_content (chapters content ! i) = Str not_generated_body \<or>
             (\<exists>result. text_request env i 0 = Inr result \<and> truthy (resp_text result) \<and>
                parse_content env (the (resp_text result)) =
                  Inr (ch_content (chapters content ! i)))))))"
proof (intro conjI impI)
  assume "fst (outline_step env) = Inr outline \<and> chapterTitles outline = Some T"
  then have run: "fst (generateMaterial env) =
      Inr \<lparr>title = title outline, subtitle = subtitle outline, author = author outline,
           summary = summary outline, colorTheme = colorTheme outline,
           chapters = map (\<lambda>j. fst (chapter_step env (length T) j (T ! j))) [0..<length T]\<rparr>"
    by (simp add: fst_generateMaterial)
  show "\<exists>content. fst (generateMaterial env) = Inr content \<and>
         length (chapters content) = length T \<and>
         (\<forall>i<length T.
            ch_title (chapters content ! i) = T ! i \<and>
            (ch_content (chapters content ! i) = Str error_body \<or>
             ch_content (chapters content ! i) = Str unavailable_body \<or>
             (\<exists>j textResult. text_request env i j = Inr textResult \<and>
                truthy (resp_text textResult) \<and>
                parse_content env (the (resp_text textResult)) =
                  Inr (ch_content (chapters content ! i)))))"
    unfolding run
    by (intro exI conjI allI impI, rule refl)
      (simp_all add: nth_map_upt chapter_step_title chapter_step_body del: upt_Suc)
next
  assume a: "outline_step_batched env = Inr outline \<and> chapterTitles outline = Some T \<and>
    all_settle settle T"
  then obtain res evs where r: "generateMaterial_batched env settle = Some (res, evs)"
    using generateMaterial_batched_returns by blast
  with a have run: "generateMaterial_batched env settle =
      Some (Inr \<lparr>title = title outline, subtitle = subtitle outline, author = author outline,
           summary = summary outline, colorTheme = colorTheme outline,
           chapters = map (\<lambda>j. chapter_task env j (T ! j)) [0..<length T]\<rparr>, evs)"
    using generateMaterial_batched_result by blast
  show "\<exists>content evs. generateMaterial_batched env settle = Some (Inr content, evs) \<and>
         length (chapters content) = length T \<and>
         (\<forall>i<length T.
            ch_title (chapters content ! i) = T ! i \<and>
            (ch_content (chapters content ! i) = Str batch_error_body \<or>
             ch_content (chapters content ! i) = Str not_generated_body \<or>
             (\<exists>result. text_request env i 0 = Inr result \<and> truthy (resp_text result) \<and>
                parse_content env (the (resp_text result)) =
                  Inr (ch_content (chapters content ! i)))))"
    unfolding run
    by (intro exI conjI allI impI, rule refl)
      (simp_all add: nth_map_upt chapter_task_title chapter_task_body del: upt_Suc)
qed

theorem chapters_match_titles_witness:
  "(\<exists>content. fst (generateMaterial demo_env) = Inr content \<and>
      length (chapters content) = 4 \<and> ch_title (chapters content ! 3) = js ''D'') \<and>
   (\<exists>content evs. generateMaterial_batched demo_env demo_settle = Some (Inr content, evs) \<and>
      length (chapters content) = 4 \<and> ch_title (chapters content ! 3) = js ''D'')"
proof -
  note both = chapters_match_titles [of demo_env demo_outline
      "[js ''A'', js ''B'', js ''C'', js ''D'']" demo_settle]
  from both [THEN conjunct1] demo_outline_step demo_titles
  have "\<exists>content. fst (generateMaterial demo_env) = Inr content \<and>
      length (chapters content) = 4 \<and> ch_title (chapters content ! 3) = js ''D''"
    by auto
  moreover from both [THEN conjunct2] demo_outline_step_batched demo_titles demo_all_settle
  have "\<exists>content evs. generateMaterial_batched demo_env demo_settle = Some (Inr content, evs) \<and>
      length (chapters content) = 4 \<and> ch_title (chapters content ! 3) = js ''D''"
    by auto
  ultimately show ?thesis ..
qed

lemma bare_outline_step: "fst (outline_step bare_env) = Inr bare_outline"
proof -
  have "callWithRetry (js ''Gerar Estrutura'') (outline_request bare_env)
      default_retries default_baseDelay =
      (Inr (text_response (js ''outline'')), [Invoke (js ''Gerar Estrutura'')])"
    unfolding callWithRetry_def
    by (intro callWithRetry_loop_success [where fn = "outline_request bare_env" and i = 0])
      (simp_all add: bare_env_def default_retries_def)
  then show ?thesis
    by (simp add: outline_step_def text_response_def truthy_def js_def bare_env_def)
qed

lemma bare_outline_step_batched: "outline_step_batched bare_env = Inr bare_outline"
  by (simp add: outline_step_batched_def bare_env_def text_response_def truthy_def js_def)

lemma bare_titles: "chapterTitles bare_outline = Some [js ''A'']"
  by (simp add: bare_outline_def)

lemma bare_chapter_step:
  "fst (chapter_step bare_env 1 0 (js ''A'')) =
     \<lparr>ch_title = js ''A'', ch_content = NotString, ch_image = None\<rparr>"
proof -
  have "callWithRetry_loop (js ''Texto Cap '' @ show_nat (0 + 1)) (text_request bare_env 0)
      default_retries default_baseDelay 0 =
      (Inr (text_response (js ''{}'')), [Invoke (js ''Texto Cap '' @ show_nat (0 + 1))])"
    by (intro callWithRetry_loop_success [where fn = "text_request bare_env 0" and i = 0])
      (simp_all add: bare_env_def default_retries_def)
  then have call: "fst (callWithRetry (js ''Texto Cap '' @ show_nat (0 + 1))
      (text_request bare_env 0) default_retries default_baseDelay) =
      Inr (text_response (js ''{}''))"
    by (simp add: callWithRetry_def)
  have body: "chapter_text bare_env (text_response (js ''{}'')) = Inr NotString"
    by (simp add: chapter_text_def text_response_def truthy_def bare_env_def js_def)
  have "image_request bare_env 0 0 = Inl rate_limited"
    by (simp add: bare_env_def)
  then have "fst (image_step bare_env 0) = None"
    by (rule image_step_thrown)
  with chapter_step_pushed [OF call body, of 1 "js ''A''"] show ?thesis
    by simp
qed

lemma bare_chapter_task:
  "chapter_task bare_env 0 (js ''A'') =
     \<lparr>ch_title = js ''A'', ch_content = NotString, ch_image = None\<rparr>"
  by (simp add: chapter_task_def bare_env_def text_response_def truthy_def js_def)

lemma bare_all_settle: "all_settle bare_settle [js ''A'']"
  by (auto simp: all_settle_def batch_settles_def bare_settle_def batchSize_def)

text \<open>
  The claim as the specification states it fails. Every text request of the one-chapter
  book is answered with the payload \<open>{}\<close>: the outline step succeeds, both variants return,
  and the body of the chapter is the value \<open>undefined\<close>, which is neither generated text
  nor one of the sentinel strings.
\<close>

theorem chapters_body_counterexample:
  "fst (outline_step bare_env) = Inr bare_outline \<and>
   outline_step_batched bare_env = Inr bare_outline \<and>
   chapterTitles bare_outline = Some [js ''A''] \<and>
   fst (generateMaterial bare_env) =
     Inr \<lparr>title = js ''T'', subtitle = js ''s'', author = js ''a'', summary = js ''r'',
          colorTheme = js ''#1e293b'',
          chapters = [\<lparr>ch_title = js ''A'', ch_content = NotString, ch_image = None\<rparr>]\<rparr> \<and>
   map_option fst (generateMaterial_batched bare_env bare_settle) =
     Some (Inr \<lparr>title = js ''T'', subtitle = js ''s'', author = js ''a'', summary = js ''r'',
          colorTheme = js ''#1e293b'',
          chapters = [\<lparr>ch_title = js ''A'', ch_content = NotString, ch_image = None\<rparr>]\<rparr>) \<and>
   NotString \<noteq> Str error_body \<and> NotString \<noteq> Str unavailable_body \<and>
   NotString \<noteq> Str batch_error_body \<and> NotString \<noteq> Str not_generated_body"
proof -
  have upt: "[0..<length [js ''A'']] = [0]"
    by simp
  have seq: "fst (generateMaterial bare_env) =
     Inr \<lparr>title = js ''T'', subtitle = js ''s'', author = js ''a'', summary = js ''r'',
          colorTheme = js ''#1e293b'',
          chapters = [\<lparr>ch_title = js ''A'', ch_content = NotString, ch_image = None\<rparr>]\<rparr>"
    using fst_generateMaterial [OF bare_outline_step bare_titles] bare_chapter_step
    by (simp add: upt bare_outline_def)
  from generateMaterial_batched_returns [OF bare_outline_step_batched bare_titles bare_all_settle]
  obtain res evs where run: "generateMaterial_batched bare_env bare_settle = Some (res, evs)"
    by blast
  from generateMaterial_batched_result [OF bare_outline_step_batched bare_titles run]
  have "res =
     Inr \<lparr>title = js ''T'', subtitle = js ''s'', author = js ''a'', summary = js ''r'',
          colorTheme = js ''#1e293b'',
          chapters = [\<lparr>ch_title = js ''A'', ch_content = NotString, ch_image = None\<rparr>]\<rparr>"
    using bare_chapter_task by (simp add: upt bare_outline_def)
  with run have batched: "map_option fst (generateMaterial_batched bare_env bare_settle) =
     Some (Inr \<lparr>title = js ''T'', subtitle = js ''s'', author = js ''a'', summary = js ''r'',
          colorTheme = js ''#1e293b'',
          chapters = [\<lparr>ch_title = js ''A'', ch_content = NotString, ch_image = None\<rparr>]\<rparr>)"
    by simp
  show ?thesis
    using seq batched bare_outline_step bare_outline_step_batched bare_titles by simp
qed

lemma demo_text_failure:
  "fst (callWithRetry (js ''Texto Cap '' @ show_nat (1 + 1)) (text_request demo_env 1)
     default_retries default_baseDelay) = Inl forbidden"
proof -
  have "\<not> isRateLimit forbidden"
    by (rule not_isRateLimit) (simp_all add: forbidden_def not_pattern_forbidden)
  then have "callWithRetry_loop (js ''Texto Cap '' @ show_nat (1 + 1)) (text_request demo_env 1)
      default_retries default_baseDelay 0 =
      (Inl forbidden, [Invoke (js ''Texto Cap '' @ show_nat (1 + 1))])"
    by (intro callWithRetry_loop_throw [where fn = "text_request demo_env 1" and i = 0])
      (simp_all add: demo_env_def demo_text_request_def default_retries_def)
  then show ?thesis
    by (simp add: callWithRetry_def)
qed

text \<open>
  Claim C5. When the text-generation call of chapter \<open>i\<close> throws (in the sequential
  variant: when the retry wrapper around it throws), the run still returns a content with
  one chapter per title. Chapter \<open>i\<close> is there, with the title \<open>T ! i\<close>, no illustration and
  the fixed body of the variant, which is not empty; and every chapter, before or after
  \<open>i\<close>, is the one its own iteration (or task) produces, so the generation goes on.
\<close>

theorem failed_chapter_contained:
  "(fst (outline_step env) = Inr outline \<and> chapterTitles outline = Some T \<and> i < length T \<and>
    fst (callWithRetry (js ''Texto Cap '' @ show_nat (i + 1)) (text_request env i)
           default_retries default_baseDelay) = Inl e \<longrightarrow>
      (\<exists>content. fst (generateMaterial env) = Inr content \<and>
         length (chapters content) = length T \<and>
         chapters content ! i =
           \<lparr>ch_title = T ! i, ch_content = Str error_body, ch_image = None\<rparr> \<and>
         (\<forall>j<length T.
            chapters content ! j = fst (chapter_step env (length T) j (T ! j))))) \<and>
   (outline_step_batched env = Inr outline \<and> chapterTitles outline = Some T \<and>
    i < length T \<and> text_request env i 0 = Inl e \<and> all_settle settle T \<longrightarrow>
      (\<exists>content evs. generateMaterial_batched env settle = Some (Inr content, evs) \<and>
         length (chapters content) = length T \<and>
         chapters content ! i =
           \<lparr>ch_title = T ! i, ch_content = Str batch_error_body, ch_image = None\<rparr> \<and>
         (\<forall>j<length T. chapters content ! j = chapter_task env j (T ! j)))) \<and>
   error_body \<noteq> [] \<and> batch_error_body \<noteq> []"
proof (intro conjI impI)
  assume a: "fst (outline_step env) = Inr outline \<and> chapterTitles outline = Some T \<and>
    i < length T \<and>
    fst (callWithRetry (js ''Texto Cap '' @ show_nat (i + 1)) (text_request env i)
           default_retries default_baseDelay) = Inl e"
  then have run: "fst (generateMaterial env) =
      Inr \<lparr>title = title outline, subtitle = subtitle outline, author = author outline,
           summary = summary outline, colorTheme = colorTheme outline,
           chapters = map (\<lambda>j. fst (chapter_step env (length T) j (T ! j))) [0..<length T]\<rparr>"
    by (simp add: fst_generateMaterial)
  from a have step: "fst (chapter_step env (length T) i (T ! i)) = failed_chapter (T ! i)"
    by (simp add: chapter_step_failed)
  show "\<exists>content. fst (generateMaterial env) = Inr content \<and>
         length (chapters content) = length T \<and>
         chapters content ! i =
           \<lparr>ch_title = T ! i, ch_content = Str error_body, ch_image = None\<rparr> \<and>
         (\<forall>j<length T.
            chapters content ! j = fst (chapter_step env (length T) j (T ! j)))"
    unfolding run
    by (intro exI conjI allI impI, rule refl)
      (use a step in \<open>simp_all add: nth_map_upt failed_chapter_def del: upt_Suc\<close>)
next
  assume a: "outline_step_batched env = Inr outline \<and> chapterTitles outline = Some T \<and>
    i < length T \<and> text_request env i 0 = Inl e \<and> all_settle settle T"
  then obtain res evs where r: "generateMaterial_batched env settle = Some (res, evs)"
    using generateMaterial_batched_returns by blast
  with a have run: "generateMaterial_batched env settle =
      Some (Inr \<lparr>title = title outline, subtitle = subtitle outline, author = author outline,
           summary = summary outline, colorTheme = colorTheme outline,
           chapters = map (\<lambda>j. chapter_task env j (T ! j)) [0..<length T]\<rparr>, evs)"
    using generateMaterial_batched_result by blast
  from a have task: "chapter_task env i (T ! i) =
      \<lparr>ch_title = T ! i, ch_content = Str batch_error_body, ch_image = None\<rparr>"
    by (simp add: chapter_task_def)
  show "\<exists>content evs. generateMaterial_batched env settle = Some (Inr content, evs) \<and>
         length (chapters content) = length T \<and>
         chapters content ! i =
           \<lparr>ch_title = T ! i, ch_content = Str batch_error_body, ch_image = None\<rparr> \<and>
         (\<forall>j<length T. chapters content ! j = chapter_task env j (T ! j))"
    unfolding run
    by (intro exI conjI allI impI, rule refl)
      (use a task in \<open>simp_all add: nth_map_upt del: upt_Suc\<close>)
qed (rule error_body_not_empty, rule batch_error_body_not_empty)

theorem failed_chapter_contained_witness:
  "(\<exists>content. fst (generateMaterial demo_env) = Inr content \<and>
      length (chapters content) = 4 \<and>
      chapters content ! 1 =
        \<lparr>ch_title = js ''B'', ch_content = Str error_body, ch_image = None\<rparr>) \<and>
   (\<exists>content evs. generateMaterial_batched demo_env demo_settle = Some (Inr content, evs) \<and>
      length (chapters content) = 4 \<and>
      chapters content ! 1 =
        \<lparr>ch_title = js ''B'', ch_content = Str batch_error_body, ch_image = None\<rparr>)"
proof -
  note both = failed_chapter_contained [of demo_env demo_outline
      "[js ''A'', js ''B'', js ''C'', js ''D'']" 1 forbidden demo_settle]
  have refused: "text_request demo_env 1 0 = Inl forbidden"
    by (simp add: demo_env_def demo_text_request_def)
  from both [THEN conjunct1] demo_outline_step demo_titles demo_text_failure
  have "\<exists>content. fst (generateMaterial demo_env) = Inr content \<and>
      length (chapters content) = 4 \<and>
      chapters content ! 1 =
        \<lparr>ch_title = js ''B'', ch_content = Str error_body, ch_image = None\<rparr>"
    by auto
  moreover
  from both [THEN conjunct2, THEN conjunct1] demo_outline_step_batched demo_titles
    demo_all_settle refused
  have "\<exists>content evs. generateMaterial_batched demo_env demo_settle = Some (Inr content, evs) \<and>
      length (chapters content) = 4 \<and>
      chapters content ! 1 =
        \<lparr>ch_title = js ''B'', ch_content = Str batch_error_body, ch_image = None\<rparr>"
    by auto
  ultimately show ?thesis ..
qed

text \<open>
  Claim C6. In the batched variant, with batches of three, the chapters of the returned
  content are in the order of the title list, each at the index of its title, whatever the
  order in which the promises of a batch settle: every run that returns has them so, and the
  run returns as soon as the promises of every batch settle.
\<close>

theorem batched_order:
  "(outline_step_batched env = Inr outline \<and> chapterTitles outline = Some T \<and>
    all_settle settle T \<longrightarrow>
      (\<exists>content evs. generateMaterial_batched env settle = Some (Inr content, evs) \<and>
         map ch_title (chapters content) = T \<and>
         chapters content = map (\<lambda>j. chapter_task env j (T ! j)) [0..<length T])) \<and>
   (outline_step_batched env = Inr outline \<and> chapterTitles outline = Some T \<and>
    generateMaterial_batched env settle = Some (Inr content, evs) \<longrightarrow>
      map ch_title (chapters content) = T \<and>
      chapters content = map (\<lambda>j. chapter_task env j (T ! j)) [0..<length T]) \<and>
   batchSize = 3"
proof (intro conjI impI)
  assume a: "outline_step_batched env = Inr outline \<and> chapterTitles outline = Some T \<and>
    all_settle settle T"
  then obtain res evs' where r: "generateMaterial_batched env settle = Some (res, evs')"
    using generateMaterial_batched_returns by blast
  with a have "generateMaterial_batched env settle =
      Some (Inr \<lparr>title = title outline, subtitle = subtitle outline, author = author outline,
           summary = summary outline, colorTheme = colorTheme outline,
           chapters = map (\<lambda>j. chapter_task env j (T ! j)) [0..<length T]\<rparr>, evs')"
    using generateMaterial_batched_result by blast
  then show "\<exists>content evs. generateMaterial_batched env settle = Some (Inr content, evs) \<and>
         map ch_title (chapters content) = T \<and>
         chapters content = map (\<lambda>j. chapter_task env j (T ! j)) [0..<length T]"
    using titles_of_tasks [of env T] by simp
next
  assume a: "outline_step_batched env = Inr outline \<and> chapterTitles outline = Some T \<and>
    generateMaterial_batched env settle = Some (Inr content, evs)"
  then have "Inr content =
      Inr \<lparr>title = title outline, subtitle = subtitle outline, author = author outline,
           summary = summary outline, colorTheme = colorTheme outline,
           chapters = map (\<lambda>j. chapter_task env j (T ! j)) [0..<length T]\<rparr>"
    using generateMaterial_batched_result by blast
  then have c: "chapters content = map (\<lambda>j. chapter_task env j (T ! j)) [0..<length T]"
    by simp
  then show "chapters content = map (\<lambda>j. chapter_task env j (T ! j)) [0..<length T]" .
  from c show "map ch_title (chapters content) = T"
    using titles_of_tasks [of env T] by simp
qed (rule batchSize_def)

theorem batched_order_witness:
  "\<exists>content evs. generateMaterial_batched demo_env demo_settle = Some (Inr content, evs) \<and>
     map ch_title (chapters content) = [js ''A'', js ''B'', js ''C'', js ''D''] \<and>
     demo_settle 0 = [2, 0, 1]"
proof -
  note order = batched_order [of demo_env demo_outline
      "[js ''A'', js ''B'', js ''C'', js ''D'']" demo_settle]
  from order [THEN conjunct1] demo_outline_step_batched demo_titles demo_all_settle
  have "\<exists>content evs. generateMaterial_batched demo_env demo_settle = Some (Inr content, evs) \<and>
     map ch_title (chapters content) = [js ''A'', js ''B'', js ''C'', js ''D'']"
    by auto
  then show ?thesis
    by (simp add: demo_settle_def)
qed

lemma demo_text_success:
  "fst (callWithRetry (js ''Texto Cap '' @ show_nat (0 + 1)) (text_request demo_env 0)
     default_retries default_baseDelay) = Inr (text_response (js ''body''))"
proof -
  have "callWithRetry_loop (js ''Texto Cap '' @ show_nat (0 + 1)) (text_request demo_env 0)
      default_retries default_baseDelay 0 =
      (Inr (text_response (js ''body'')), [Invoke (js ''Texto Cap '' @ show_nat (0 + 1))])"
    by (intro callWithRetry_loop_success [where fn = "text_request demo_env 0" and i = 0])
      (simp_all add: demo_env_def demo_text_request_def default_retries_def)
  then show ?thesis
    by (simp add: callWithRetry_def)
qed

lemma demo_chapter_text:
  "chapter_text demo_env (text_response (js ''body'')) = Inr (Str (js ''body''))"
  by (simp add: chapter_text_def text_response_def truthy_def demo_env_def js_def)

text \<open>
  Claim C7. In the sequential variant, when the text of chapter \<open>i\<close> has been generated
  (the wrapped text call returned and its body was read) and the image request throws or
  its response has no part with inline data, the chapter is produced with that body and
  without illustration, in a run that returns one chapter per title. More generally the
  image backend cannot make a chapter or the run fail: replacing it by any other leaves the
  run returning a content with the same titles and the same bodies.
\<close>

theorem image_failure_swallowed:
  "(fst (outline_step env) = Inr outline \<and> chapterTitles outline = Some T \<and> i < length T \<and>
    fst (callWithRetry (js ''Texto Cap '' @ show_nat (i + 1)) (text_request env i)
           default_retries default_baseDelay) = Inr textResult \<and>
    chapter_text env textResult = Inr body \<and>
    (image_request env i 0 = Inl imgErr \<or>
     image_request env i 0 = Inr imageResult \<and> no_inline_part imageResult) \<longrightarrow>
      (\<exists>content. fst (generateMaterial env) = Inr content \<and>
         length (chapters content) = length T \<and>
         chapters content ! i = \<lparr>ch_title = T ! i, ch_content = body, ch_image = None\<rparr>)) \<and>
   (fst (outline_step env) = Inr outline \<and> chapterTitles outline = Some T \<longrightarrow>
      (\<exists>content content'.
         fst (generateMaterial env) = Inr content \<and>
         fst (generateMaterial (env\<lparr>image_request := f\<rparr>)) = Inr content' \<and>
         map ch_title (chapters content') = map ch_title (chapters content) \<and>
         map ch_content (chapters content') = map ch_content (chapters content)))"
proof (intro conjI impI)
  assume a: "fst (outline_step env) = Inr outline \<and> chapterTitles outline = Some T \<and>
    i < length T \<and>
    fst (callWithRetry (js ''Texto Cap '' @ show_nat (i + 1)) (text_request env i)
           default_retries default_baseDelay) = Inr textResult \<and>
    chapter_text env textResult = Inr body \<and>
    (image_request env i 0 = Inl imgErr \<or>
     image_request env i 0 = Inr imageResult \<and> no_inline_part imageResult)"
  then have run: "fst (generateMaterial env) =
      Inr \<lparr>title = title outline, subtitle = subtitle outline, author = author outline,
           summary = summary outline, colorTheme = colorTheme outline,
           chapters = map (\<lambda>j. fst (chapter_step env (length T) j (T ! j))) [0..<length T]\<rparr>"
    by (simp add: fst_generateMaterial)
  from a have "fst (image_step env i) = None"
    using image_step_thrown image_step_no_inline by blast
  with a have step: "fst (chapter_step env (length T) i (T ! i)) =
      \<lparr>ch_title = T ! i, ch_content = body, ch_image = None\<rparr>"
    using chapter_step_pushed [of i env textResult body "length T" "T ! i"] by simp
  show "\<exists>content. fst (generateMaterial env) = Inr content \<and>
         length (chapters content) = length T \<and>
         chapters content ! i = \<lparr>ch_title = T ! i, ch_content = body, ch_image = None\<rparr>"
    unfolding run
    by (intro exI conjI, rule refl) (use a step in \<open>simp_all add: nth_map_upt del: upt_Suc\<close>)
next
  assume a: "fst (outline_step env) = Inr outline \<and> chapterTitles outline = Some T"
  then have run: "fst (generateMaterial env) =
      Inr \<lparr>title = title outline, subtitle = subtitle outline, author = author outline,
           summary = summary outline, colorTheme = colorTheme outline,
           chapters = map (\<lambda>j. fst (chapter_step env (length T) j (T ! j))) [0..<length T]\<rparr>"
    by (simp add: fst_generateMaterial)
  from a have "fst (outline_step (env\<lparr>image_request := f\<rparr>)) = Inr outline"
    by (simp add: outline_step_image)
  with a have run': "fst (generateMaterial (env\<lparr>image_request := f\<rparr>)) =
      Inr \<lparr>title = title outline, subtitle = subtitle outline, author = author outline,
           summary = summary outline, colorTheme = colorTheme outline,
           chapters = map (\<lambda>j. fst (chapter_step (env\<lparr>image_request := f\<rparr>) (length T) j (T ! j)))
             [0..<length T]\<rparr>"
    by (simp add: fst_generateMaterial)
  show "\<exists>content content'.
         fst (generateMaterial env) = Inr content \<and>
         fst (generateMaterial (env\<lparr>image_request := f\<rparr>)) = Inr content' \<and>
         map ch_title (chapters content') = map ch_title (chapters content) \<and>
         map ch_content (chapters content') = map ch_content (chapters content)"
    unfolding run run'
    by (intro exI conjI, rule refl, rule refl)
      (simp_all add: comp_def chapter_step_image del: upt_Suc)
qed

theorem image_failure_swallowed_witness:
  "\<exists>content. fst (generateMaterial demo_env) = Inr content \<and>
     length (chapters content) = 4 \<and>
     chapters content ! 0 =
       \<lparr>ch_title = js ''A'', ch_content = Str (js ''body''), ch_image = None\<rparr>"
proof -
  have limited: "image_request demo_env 0 0 = Inl rate_limited"
    by (simp add: demo_env_def)
  from image_failure_swallowed [of demo_env demo_outline
      "[js ''A'', js ''B'', js ''C'', js ''D'']" 0 "text_response (js ''body'')"
      "Str (js ''body'')" rate_limited, THEN conjunct1]
    demo_outline_step demo_titles demo_text_success demo_chapter_text limited
  show ?thesis
    by auto
qed

lemma demo_text_empty: "text_request demo_env 2 0 = Inr empty_response"
  by (simp add: demo_env_def demo_text_request_def)

lemma empty_response_falsy: "\<not> truthy (resp_text empty_response)"
  by (simp add: empty_response_def truthy_def)

text \<open>
  Claim C10. In both variants a text call that returns a response whose text payload is
  empty or absent does not make the chapter fail: the run returns, and the body of the
  chapter is the fixed string of the variant for this case, which differs from the body of
  a failed chapter. In the sequential variant the wrapper does not call the operation again
  after the attempt that returned: with \<open>k\<close> rate-limited attempts before it, the operation
  is invoked \<open>k + 1\<close> times.
\<close>

theorem empty_payload_is_not_failure:
  "(fst (outline_step env) = Inr outline \<and> chapterTitles outline = Some T \<and> i < length T \<and>
    k < default_retries \<and>
    (\<forall>j<k. \<exists>e. text_request env i j = Inl e \<and> isRateLimit e) \<and>
    text_request env i k = Inr textResult \<and> \<not> truthy (resp_text textResult) \<longrightarrow>
      (\<exists>content. fst (generateMaterial env) = Inr content \<and>
         chapters content ! i =
           \<lparr>ch_title = T ! i, ch_content = Str unavailable_body,
            ch_image = fst (image_step env i)\<rparr>) \<and>
      invocations (snd (callWithRetry (js ''Texto Cap '' @ show_nat (i + 1))
        (text_request env i) default_retries default_baseDelay)) = k + 1) \<and>
   (outline_step_batched env = Inr outline \<and> chapterTitles outline = Some T \<and>
    i < length T \<and> text_request env i 0 = Inr textResult \<and>
    \<not> truthy (resp_text textResult) \<and> all_settle settle T \<longrightarrow>
      (\<exists>content evs. generateMaterial_batched env settle = Some (Inr content, evs) \<and>
         chapters content ! i =
           \<lparr>ch_title = T ! i, ch_content = Str not_generated_body, ch_image = None\<rparr>)) \<and>
   unavailable_body \<noteq> error_body \<and> not_generated_body \<noteq> batch_error_body"
proof (intro conjI impI)
  assume a: "fst (outline_step env) = Inr outline \<and> chapterTitles outline = Some T \<and>
    i < length T \<and> k < default_retries \<and>
    (\<forall>j<k. \<exists>e. text_request env i j = Inl e \<and> isRateLimit e) \<and>
    text_request env i k = Inr textResult \<and> \<not> truthy (resp_text textResult)"
  let ?name = "js ''Texto Cap '' @ show_nat (i + 1)"
  from a have "callWithRetry ?name (text_request env i) default_retries default_baseDelay =
      emit (backoff_events ?name default_baseDelay 0 k)
        (callWithRetry_loop ?name (text_request env i) default_retries default_baseDelay k)"
    by (intro callWithRetry_prefix) simp_all
  moreover from a
  have "callWithRetry_loop ?name (text_request env i) default_retries default_baseDelay k =
      (Inr textResult, [Invoke ?name])"
    by (intro callWithRetry_loop_success [where fn = "text_request env i" and i = k]) simp_all
  ultimately have call: "callWithRetry ?name (text_request env i) default_retries
      default_baseDelay = (Inr textResult, backoff_events ?name default_baseDelay 0 k @ [Invoke ?name])"
    by (simp add: emit_def)
  then show "invocations (snd (callWithRetry ?name (text_request env i) default_retries
      default_baseDelay)) = k + 1"
    by (simp add: invocations_append invocations_backoff_events invocations_Invoke)
  from a have "chapter_text env textResult = Inr (Str unavailable_body)"
    by (simp add: chapter_text_def)
  with call have step: "fst (chapter_step env (length T) i (T ! i)) =
      \<lparr>ch_title = T ! i, ch_content = Str unavailable_body, ch_image = fst (image_step env i)\<rparr>"
    using chapter_step_pushed [of i env textResult "Str unavailable_body" "length T" "T ! i"]
    by simp
  from a have run: "fst (generateMaterial env) =
      Inr \<lparr>title = title outline, subtitle = subtitle outline, author = author outline,
           summary = summary outline, colorTheme = colorTheme outline,
           chapters = map (\<lambda>j. fst (chapter_step env (length T) j (T ! j))) [0..<length T]\<rparr>"
    by (simp add: fst_generateMaterial)
  show "\<exists>content. fst (generateMaterial env) = Inr content \<and>
         chapters content ! i =
           \<lparr>ch_title = T ! i, ch_content = Str unavailable_body,
            ch_image = fst (image_step env i)\<rparr>"
    unfolding run
    by (intro exI conjI, rule refl) (use a step in \<open>simp_all add: nth_map_upt del: upt_Suc\<close>)
next
  assume a: "outline_step_batched env = Inr outline \<and> chapterTitles outline = Some T \<and>
    i < length T \<and> text_request env i 0 = Inr textResult \<and>
    \<not> truthy (resp_text textResult) \<and> all_settle settle T"
  then obtain res evs where r: "generateMaterial_batched env settle = Some (res, evs)"
    using generateMaterial_batched_returns by blast
  with a have run: "generateMaterial_batched env settle =
      Some (Inr \<lparr>title = title outline, subtitle = subtitle outline, author = author outline,
           summary = summary outline, colorTheme = colorTheme outline,
           chapters = map (\<lambda>j. chapter_task env j (T ! j)) [0..<length T]\<rparr>, evs)"
    using generateMaterial_batched_result by blast
  from a have task: "chapter_task env i (T ! i) =
      \<lparr>ch_title = T ! i, ch_content = Str not_generated_body, ch_image = None\<rparr>"
    by (simp add: chapter_task_def)
  show "\<exists>content evs. generateMaterial_batched env settle = Some (Inr content, evs) \<and>
         chapters content ! i =
           \<lparr>ch_title = T ! i, ch_content = Str not_generated_body, ch_image = None\<rparr>"
    unfolding run
    by (intro exI conjI, rule refl) (use a task in \<open>simp_all add: nth_map_upt del: upt_Suc\<close>)
qed (rule unavailable_not_error, rule not_generated_not_error)

theorem empty_payload_is_not_failure_witness:
  "(\<exists>content. fst (generateMaterial demo_env) = Inr content \<and>
      ch_content (chapters content ! 2) = Str unavailable_body) \<and>
   invocations (snd (callWithRetry (js ''Texto Cap '' @ show_nat (2 + 1))
     (text_request demo_env 2) default_retries default_baseDelay)) = 1 \<and>
   (\<exists>content evs. generateMaterial_batched demo_env demo_settle = Some (Inr content, evs) \<and>
      ch_content (chapters content ! 2) = Str not_generated_body)"
proof -
  note both = empty_payload_is_not_failure [of demo_env demo_outline
      "[js ''A'', js ''B'', js ''C'', js ''D'']" 2 0 empty_response demo_settle]
  have "(0::nat) < default_retries"
    by (simp add: default_retries_def)
  with both [THEN conjunct1] demo_outline_step demo_titles demo_text_empty empty_response_falsy
  have "(\<exists>content. fst (generateMaterial demo_env) = Inr content \<and>
      ch_content (chapters content ! 2) = Str unavailable_body) \<and>
    invocations (snd (callWithRetry (js ''Texto Cap '' @ show_nat (2 + 1))
      (text_request demo_env 2) default_retries default_baseDelay)) = 1"
    by auto
  moreover
  from both [THEN conjunct2, THEN conjunct1] demo_outline_step_batched demo_titles
    demo_all_settle demo_text_empty empty_response_falsy
  have "\<exists>content evs. generateMaterial_batched demo_env demo_settle = Some (Inr content, evs) \<and>
      ch_content (chapters content ! 2) = Str not_generated_body"
    by auto
  ultimately show ?thesis by simp
qed

section \<open>Properties of the renderer\<close>

lemma parseInt16_1e: "parseInt16 (js ''1e'') = Num 30"
  by (simp add: parseInt16_def js_def is_white_space_def strip_sign_def strip_0x_def
      hex_digit_def hex_value_def)

lemma parseInt16_29: "parseInt16 (js ''29'') = Num 41"
  by (simp add: parseInt16_def js_def is_white_space_def strip_sign_def strip_0x_def
      hex_digit_def hex_value_def)

lemma parseInt16_3b: "parseInt16 (js ''3b'') = Num 59"
  by (simp add: parseInt16_def js_def is_white_space_def strip_sign_def strip_0x_def
      hex_digit_def hex_value_def)

lemma parseInt16_zz: "parseInt16 (js ''zz'') = NaN"
  by (simp add: parseInt16_def js_def is_white_space_def strip_sign_def strip_0x_def
      hex_digit_def hex_value_def)

text \<open>The example colour, and the inputs that the guard of \<open>hexToRgb\<close> catches.\<close>

lemma hexToRgb_slate:
  "hexToRgb (Some (js ''#1e293b'')) = \<lparr>r = Num 30, g = Num 41, b = Num 59\<rparr>"
proof -
  have "slice (js ''#1e293b'') 1 3 = js ''1e''" and "slice (js ''#1e293b'') 3 5 = js ''29''"
    and "slice (js ''#1e293b'') 5 7 = js ''3b''"
    by (simp_all add: slice_def js_def)
  moreover have "truthy (Some (js ''#1e293b''))" and "starts_with [35] (js ''#1e293b'')"
    by (simp_all add: truthy_def js_def)
  ultimately show ?thesis
    by (simp add: hexToRgb_def parseInt16_1e parseInt16_29 parseInt16_3b)
qed

lemma hexToRgb_missing: "hexToRgb None = fallback_rgb \<and> hexToRgb (Some []) = fallback_rgb"
  by (simp add: hexToRgb_def truthy_def fallback_rgb_def)

lemma hexToRgb_no_number_sign:
  "\<not> starts_with [35] s \<Longrightarrow> hexToRgb (Some s) = fallback_rgb"
  by (simp add: hexToRgb_def fallback_rgb_def)

text \<open>
  Claim C8. The claim asks for the fallback colour (30, 41, 59) on every invalid colour
  string. The guard of \<open>hexToRgb\<close> looks at the first character only: on \<open>#zzzzzz\<close>, which
  is no hexadecimal colour, each of the three channels is what \<open>parseInt\<close> returns on
  \<open>zz\<close>, that is \<open>NaN\<close>, and the result is not the fallback colour.
\<close>

theorem hexToRgb_malformed:
  "hexToRgb (Some (js ''#zzzzzz'')) = \<lparr>r = NaN, g = NaN, b = NaN\<rparr> \<and>
   hexToRgb (Some (js ''#zzzzzz'')) \<noteq> fallback_rgb"
proof -
  have "slice (js ''#zzzzzz'') 1 3 = js ''zz''" and "slice (js ''#zzzzzz'') 3 5 = js ''zz''"
    and "slice (js ''#zzzzzz'') 5 7 = js ''zz''"
    by (simp_all add: slice_def js_def)
  moreover have "truthy (Some (js ''#zzzzzz''))" and "starts_with [35] (js ''#zzzzzz'')"
    by (simp_all add: truthy_def js_def)
  ultimately have "hexToRgb (Some (js ''#zzzzzz'')) = \<lparr>r = NaN, g = NaN, b = NaN\<rparr>"
    by (simp add: hexToRgb_def parseInt16_zz)
  then show ?thesis
    by (simp add: fallback_rgb_def)
qed

theorem hexToRgb_malformed_witness:
  "r (hexToRgb (Some (js ''#zzzzzz''))) = NaN \<and> r fallback_rgb = Num 30"
  using hexToRgb_malformed by (simp add: fallback_rgb_def)

text \<open>A three-digit colour such as \<open>#fff\<close> loses its blue channel in the same way.\<close>

lemma hexToRgb_short:
  "hexToRgb (Some (js ''#fff'')) = \<lparr>r = Num 255, g = Num 15, b = NaN\<rparr>"
  by (simp add: hexToRgb_def truthy_def slice_def js_def parseInt16_def is_white_space_def
      strip_sign_def strip_0x_def hex_digit_def hex_value_def)

lemma replace_non_alnum_length: "length (replace_non_alnum s) = length s"
  by (simp add: replace_non_alnum_def)

lemma toLowerCase_length: "length (toLowerCase s) = length s"
  by (simp add: toLowerCase_def)

lemma js_length: "length (js s) = length s"
  by (simp add: js_def)

lemma stem_nth:
  "i < length t \<Longrightarrow>
     toLowerCase (replace_non_alnum t) ! i =
       (if is_alnum (t ! i) then (if 65 \<le> t ! i \<and> t ! i \<le> 90 then t ! i + 32 else t ! i)
        else 95)"
  by (simp add: toLowerCase_def replace_non_alnum_def)

lemma stem_without_underscores:
  "filter (\<lambda>c. c \<noteq> 95) (toLowerCase (replace_non_alnum t)) = toLowerCase (strip_non_alnum t)"
  by (induction t)
    (auto simp: toLowerCase_def replace_non_alnum_def strip_non_alnum_def is_alnum_def)

text \<open>
  Claim C9, as the renderer behaves. The file name is a function of the title: every code
  unit of the title that is not an ASCII letter or digit is replaced by an underscore, not
  removed, so that the name is as long as the title plus the four code units of \<open>.pdf\<close>;
  letters are put in lower case; the name ends in \<open>.pdf\<close>. Every code unit before the
  extension is a lower-case letter, a digit or an underscore, and removing the underscores
  leaves the alphanumeric characters of the title, in lower case and in order.
\<close>

theorem pdf_filename_shape:
  "length (pdf_filename t) = length t + 4 \<and>
   drop (length t) (pdf_filename t) = js ''.pdf'' \<and>
   (\<forall>i<length t.
      pdf_filename t ! i =
        (if is_alnum (t ! i) then (if 65 \<le> t ! i \<and> t ! i \<le> 90 then t ! i + 32 else t ! i)
         else 95) \<and>
      ((48 \<le> pdf_filename t ! i \<and> pdf_filename t ! i \<le> 57) \<or>
       (97 \<le> pdf_filename t ! i \<and> pdf_filename t ! i \<le> 122) \<or>
       pdf_filename t ! i = 95)) \<and>
   filter (\<lambda>c. c \<noteq> 95) (take (length t) (pdf_filename t)) = toLowerCase (strip_non_alnum t)"
proof (intro conjI allI impI)
  show "length (pdf_filename t) = length t + 4"
    by (simp add: pdf_filename_def toLowerCase_length replace_non_alnum_length js_length)
  show "drop (length t) (pdf_filename t) = js ''.pdf''"
    by (simp add: pdf_filename_def toLowerCase_length replace_non_alnum_length)
  show "filter (\<lambda>c. c \<noteq> 95) (take (length t) (pdf_filename t)) =
      toLowerCase (strip_non_alnum t)"
    by (simp add: pdf_filename_def toLowerCase_length replace_non_alnum_length
        stem_without_underscores)
next
  fix i assume i: "i < length t"
  then have nth: "pdf_filename t ! i = toLowerCase (replace_non_alnum t) ! i"
    by (simp add: pdf_filename_def nth_append toLowerCase_length replace_non_alnum_length)
  show "pdf_filename t ! i =
      (if is_alnum (t ! i) then (if 65 \<le> t ! i \<and> t ! i \<le> 90 then t ! i + 32 else t ! i)
       else 95)"
    using i by (simp only: nth stem_nth)
  show "(48 \<le> pdf_filename t ! i \<and> pdf_filename t ! i \<le> 57) \<or>
      (97 \<le> pdf_filename t ! i \<and> pdf_filename t ! i \<le> 122) \<or>
      pdf_filename t ! i = 95"
    using i unfolding nth stem_nth [OF i] by (auto simp: is_alnum_def)
qed

lemma pdf_filename_my_book: "pdf_filename (js ''My Book!'') = js ''my_book_.pdf''"
  by (simp add: pdf_filename_def toLowerCase_def replace_non_alnum_def is_alnum_def js_def)

theorem pdf_filename_shape_witness:
  "length (pdf_filename (js ''My Book!'')) = 12 \<and>
   drop 8 (pdf_filename (js ''My Book!'')) = js ''.pdf'' \<and>
   pdf_filename (js ''My Book!'') ! 2 = 95 \<and>
   pdf_filename (js ''My Book!'') ! 0 = 109"
proof -
  note shape = pdf_filename_shape [of "js ''My Book!''"]
  have len: "length (js ''My Book!'') = 8"
    by (simp add: js_def)
  have "\<not> is_alnum (js ''My Book!'' ! 2)" and "is_alnum (js ''My Book!'' ! 0)"
    and "js ''My Book!'' ! 0 = 77"
    by (simp_all add: js_def is_alnum_def)
  moreover from shape have "\<forall>i<length (js ''My Book!'').
      pdf_filename (js ''My Book!'') ! i =
        (if is_alnum (js ''My Book!'' ! i)
         then (if 65 \<le> js ''My Book!'' ! i \<and> js ''My Book!'' ! i \<le> 90
               then js ''My Book!'' ! i + 32 else js ''My Book!'' ! i)
         else 95)"
    by blast
  ultimately have "pdf_filename (js ''My Book!'') ! 2 = 95"
    and "pdf_filename (js ''My Book!'') ! 0 = 109"
    using len by simp_all
  moreover from shape len have "length (pdf_filename (js ''My Book!'')) = 12"
    and "drop 8 (pdf_filename (js ''My Book!'')) = js ''.pdf''"
    by simp_all
  ultimately show ?thesis by simp
qed

text \<open>
  The claim as the specification states it fails: for the title \<open>My Book!\<close> the file name
  is \<open>my_book_.pdf\<close>, in which the space and the exclamation mark are not stripped but
  replaced; it is neither \<open>MyBook.pdf\<close> nor \<open>mybook.pdf\<close>.
\<close>

theorem pdf_filename_counterexample:
  "pdf_filename (js ''My Book!'') = js ''my_book_.pdf'' \<and>
   pdf_filename (js ''My Book!'') \<noteq> strip_non_alnum (js ''My Book!'') @ js ''.pdf'' \<and>
   pdf_filename (js ''My Book!'') \<noteq> toLowerCase (strip_non_alnum (js ''My Book!'')) @ js ''.pdf''"
proof -
  have "strip_non_alnum (js ''My Book!'') = js ''MyBook''"
    by (simp add: strip_non_alnum_def is_alnum_def js_def)
  moreover have "toLowerCase (js ''MyBook'') = js ''mybook''"
    by (simp add: toLowerCase_def js_def)
  moreover have "js ''my_book_.pdf'' \<noteq> js ''MyBook'' @ js ''.pdf''"
    and "js ''my_book_.pdf'' \<noteq> js ''mybook'' @ js ''.pdf''"
    by (simp_all add: js_def)
  ultimately show ?thesis
    by (simp add: pdf_filename_my_book)
qed

end
